theory Spec2Isabelle
  imports Main "HOL-Library.Char_ord" "HOL-Library.List_Lexorder" "HOL-Library.Multiset"
begin

section \<open>Strings, names and extensions\<close>

text \<open>
  File names are Python \<open>str\<close> values; here they are \<open>string\<close>s, the UTF-8 bytes of the
  name. Python compares strings lexicographically by code point, which on UTF-8 bytes is the
  order of \<open>HOL-Library.List_Lexorder\<close> over \<open>HOL-Library.Char_ord\<close>. A file name is a
  single path component (what \<open>Path.name\<close> of a directory entry gives).

  \<open>str.lower()\<close> follows the Unicode tables of the interpreter. The catalog listings, which
  lowercase whatever names the source tree holds, take it as their argument \<open>str_lower\<close>.
  \<open>lower\<close> below is \<open>str.lower()\<close> on ASCII text: the selection store applies it to the
  extension of a selected image, and an extension that the listing accepts is ASCII.
\<close>

definition char_lower :: "char \<Rightarrow> char" where
  "char_lower c =
     (case map_of (zip ''ABCDEFGHIJKLMNOPQRSTUVWXYZ'' ''abcdefghijklmnopqrstuvwxyz'') c of
        None \<Rightarrow> c
      | Some l \<Rightarrow> l)"

definition lower :: "string \<Rightarrow> string" where
  "lower s = map char_lower s"

text \<open>\<open>str.rfind\<close>: the highest index holding the character, \<open>None\<close> for Python's \<open>-1\<close>.\<close>

definition rfind :: "char \<Rightarrow> string \<Rightarrow> nat option" where
  "rfind c s =
     (case filter (\<lambda>i. s ! i = c) (rev [0..<length s]) of
        [] \<Rightarrow> None
      | i # _ \<Rightarrow> Some i)"

text \<open>
  \<open>PurePath.suffix\<close>: with \<open>i = name.rfind('.')\<close>, the result is \<open>name[i:]\<close> when
  \<open>0 < i < len(name) - 1\<close> and the empty string otherwise.
\<close>

definition suffix :: "string \<Rightarrow> string" where
  "suffix name =
     (case rfind CHR ''.'' name of
        None \<Rightarrow> []
      | Some i \<Rightarrow> if 0 < i \<and> i + 1 < length name then drop i name else [])"

definition SUPPORTED_EXTENSIONS :: "string set" where
  "SUPPORTED_EXTENSIONS =
     {''.jpg'', ''.jpeg'', ''.png'', ''.webp'', ''.gif'', ''.bmp'', ''.tiff''}"

definition COLOR_OPTIONS :: "string list" where
  "COLOR_OPTIONS =
     [''unknown'', ''black'', ''white'', ''red'', ''blue'', ''green'', ''yellow'', ''orange'',
      ''purple'', ''pink'', ''brown'', ''grey'', ''gray'', ''navy'', ''beige'', ''gold'',
      ''silver'', ''multicolor'', ''camo'', ''other'']"

text \<open>The decimal text of an index, as an f-string prints an \<open>int\<close>.\<close>

definition digit_char :: "nat \<Rightarrow> char" where
  "digit_char d = ''0123456789'' ! d"

fun str_nat :: "nat \<Rightarrow> string" where
  "str_nat n = (if n < 10 then [digit_char n] else str_nat (n div 10) @ [digit_char (n mod 10)])"

declare str_nat.simps [simp del]

section \<open>The file system\<close>

text \<open>
  The metadata record that \<open>save_selection\<close> dumps as JSON, and one entry of its
  \<open>images\<close> list.
\<close>

record image_meta =
  meta_original_file :: string
  saved_file :: string
  meta_color :: string

record selection_data =
  product_name :: string
  completed :: bool
  selected_by :: string
  timestamp :: string
  images :: "image_meta list"

text \<open>
  A file holds bytes or the JSON text of a selection record; the JSON text is kept as the
  data it was dumped from.
\<close>

datatype content = Bytes string | Json selection_data

text \<open>
  The read-only source tree. A directory carries its entries in the order
  \<open>Path.iterdir\<close> yields them, which the operating system chooses.
\<close>

datatype node = File content | Dir "(string \<times> node) list"

fun is_dir :: "node \<Rightarrow> bool" where
  "is_dir (Dir _) = True"
| "is_dir (File _) = False"

fun is_file :: "node \<Rightarrow> bool" where
  "is_file (File _) = True"
| "is_file (Dir _) = False"

text \<open>A \<open>Path\<close> handed out by a listing: its \<open>name\<close> and what it points to.\<close>

type_synonym path = "string \<times> node"

abbreviation name :: "path \<Rightarrow> string" where
  "name p \<equiv> fst p"

datatype exn =
    NotADirectoryError
  | FileNotFoundError string
  | IsADirectoryError string
  | OSError_mkdir
  | OSError_stat string
  | OSError_copy nat
  | OSError_write
  | OSError_replace
  | OSError_rmtree

section \<open>Catalog scanning\<close>

text \<open>
  \<open>get_all_product_folders\<close>, with \<open>str.lower\<close> and \<open>SOURCE_FOLDER\<close> as arguments: \<open>None\<close>
  when the path does not exist. \<open>iterdir\<close> on a path that is a file raises. \<open>list.sort\<close> is
  stable, as \<open>sort_key\<close> is.
\<close>

definition get_all_product_folders :: "(string \<Rightarrow> string) \<Rightarrow> node option \<Rightarrow> exn + path list" where
  "get_all_product_folders str_lower SOURCE_FOLDER =
     (case SOURCE_FOLDER of
        None \<Rightarrow> Inr []
      | Some (File _) \<Rightarrow> Inl NotADirectoryError
      | Some (Dir entries) \<Rightarrow>
          Inr (sort_key (\<lambda>x. str_lower (name x)) (filter (\<lambda>f. is_dir (snd f)) entries)))"

definition get_images_in_folder :: "(string \<Rightarrow> string) \<Rightarrow> node option \<Rightarrow> exn + path list" where
  "get_images_in_folder str_lower folder_path =
     (case folder_path of
        None \<Rightarrow> Inr []
      | Some (File _) \<Rightarrow> Inl NotADirectoryError
      | Some (Dir entries) \<Rightarrow>
          Inr (sort_key (\<lambda>x. str_lower (name x))
                 (filter (\<lambda>item. is_file (snd item)
                            \<and> str_lower (suffix (name item)) \<in> SUPPORTED_EXTENSIONS) entries)))"

section \<open>The selection store\<close>

text \<open>
  The output tree \<open>OUTPUT_FOLDER\<close>: one directory per product name, each a map from file
  name to content. A name that is not bound does not exist.
\<close>

type_synonym out_dir = "string \<rightharpoonup> content"
type_synonym out_tree = "string \<rightharpoonup> out_dir"

definition is_product_completed :: "out_tree \<Rightarrow> string \<Rightarrow> bool" where
  "is_product_completed OUTPUT_FOLDER product =
     (case OUTPUT_FOLDER product of
        None \<Rightarrow> False
      | Some d \<Rightarrow> d ''selection.json'' \<noteq> None)"

text \<open>
  What the operating system does to each call is an argument of the model. A copy or a
  write that raises leaves its target untouched (\<open>None\<close>) or holding some content
  (a partial file); \<open>mkdir\<close> and the rename either happen or raise and change nothing.
\<close>

datatype io_outcome = Io_ok | Io_raises "content option"

record faults =
  mkdir_raises :: bool
  stat_raises :: "string \<Rightarrow> bool"
  copy_outcome :: "nat \<Rightarrow> io_outcome"
  write_outcome :: io_outcome
  replace_raises :: bool

text \<open>
  What \<open>st.error\<close> and \<open>st.warning\<close> are called with. Both calls are taken to
  return: the exceptions of the model are those of the file operations.
\<close>

datatype ui_msg =
    Error_missing_sources nat "string list"
  | Warning_already_saved
  | Error_saving exn

text \<open>
  One element of \<open>selected_images\<close>: a dict with the key \<open>original_file\<close> and, possibly,
  \<open>color\<close>. \<open>color = None\<close> stands for an absent key and for the value \<open>None\<close>.
\<close>

record img_info =
  original_file :: string
  color :: "string option"

text \<open>\<open>img_info.get("color", "unknown") or "unknown"\<close>\<close>

definition color_or_unknown :: "string option \<Rightarrow> string" where
  "color_or_unknown c =
     (case c of
        None \<Rightarrow> ''unknown''
      | Some s \<Rightarrow> if s = [] then ''unknown'' else s)"

text \<open>
  \<open>f"ref_{idx}_{color}{ext}"\<close>. The result is used as one file name of the product's
  directory: colours, like file names, hold no path separator.
\<close>

definition new_filename :: "nat \<Rightarrow> string \<Rightarrow> string \<Rightarrow> string" where
  "new_filename idx col ext = ''ref_'' @ str_nat idx @ ''_'' @ col @ ext"

text \<open>\<open>(source_folder / original_file)\<close>, and whether it \<open>exists()\<close>.\<close>

definition source_lookup :: "node option \<Rightarrow> string \<Rightarrow> node option" where
  "source_lookup source_folder original =
     (case source_folder of
        Some (Dir entries) \<Rightarrow> map_of entries original
      | _ \<Rightarrow> None)"

text \<open>The validation loop of \<open>save_selection\<close> (lines 200 to 204).\<close>

fun missing_files :: "faults \<Rightarrow> node option \<Rightarrow> img_info list \<Rightarrow> exn + string list" where
  "missing_files F source_folder [] = Inr []"
| "missing_files F source_folder (img # rest) =
     (if stat_raises F (original_file img) then Inl (OSError_stat (original_file img))
      else case missing_files F source_folder rest of
             Inl e \<Rightarrow> Inl e
           | Inr ms \<Rightarrow>
               Inr (if source_lookup source_folder (original_file img) = None
                    then original_file img # ms else ms))"

text \<open>
  The copy loop (lines 219 to 240) over the product's output directory: \<open>idx\<close> counts
  from the start value of \<open>enumerate\<close>, \<open>metas\<close> is \<open>images_metadata\<close> so far.
\<close>

fun copy_images ::
  "faults \<Rightarrow> node option \<Rightarrow> nat \<Rightarrow> img_info list \<Rightarrow> out_dir \<Rightarrow> image_meta list
     \<Rightarrow> (exn + image_meta list) \<times> out_dir" where
  "copy_images F source_folder idx [] d metas = (Inr metas, d)"
| "copy_images F source_folder idx (img # rest) d metas =
     (let original = original_file img;
          col = color_or_unknown (color img);
          ext = lower (suffix original);
          new = new_filename idx col ext
      in case source_lookup source_folder original of
           None \<Rightarrow> (Inl (FileNotFoundError original), d)
         | Some (Dir _) \<Rightarrow> (Inl (IsADirectoryError original), d)
         | Some (File c) \<Rightarrow>
             (case copy_outcome F idx of
                Io_raises None \<Rightarrow> (Inl (OSError_copy idx), d)
              | Io_raises (Some partial) \<Rightarrow> (Inl (OSError_copy idx), d(new \<mapsto> partial))
              | Io_ok \<Rightarrow>
                  copy_images F source_folder (Suc idx) rest (d(new \<mapsto> c))
                    (metas @ [\<lparr>meta_original_file = original, saved_file = new,
                               meta_color = col\<rparr>])))"

text \<open>
  Lines 251 to 257: dump the record to \<open>.selection.json.tmp\<close>, then
  \<open>temp_file.replace(selection_file)\<close>.
\<close>

definition publish_metadata :: "faults \<Rightarrow> selection_data \<Rightarrow> out_dir \<Rightarrow> (exn + unit) \<times> out_dir" where
  "publish_metadata F data d =
     (case write_outcome F of
        Io_raises None \<Rightarrow> (Inl OSError_write, d)
      | Io_raises (Some partial) \<Rightarrow> (Inl OSError_write, d(''.selection.json.tmp'' \<mapsto> partial))
      | Io_ok \<Rightarrow>
          (let d' = d(''.selection.json.tmp'' \<mapsto> Json data)
           in if replace_raises F then (Inl OSError_replace, d')
              else (Inr (), (d'(''.selection.json.tmp'' := None))(''selection.json'' \<mapsto> Json data))))"

text \<open>
  The body of the \<open>try\<close> block: \<open>Inl\<close> is an exception on its way to the handler,
  \<open>Inr\<close> a \<open>return\<close>. \<open>now\<close> is \<open>datetime.now().isoformat()\<close>. The output tree is
  returned as the block left it.
\<close>

definition save_selection_try ::
  "faults \<Rightarrow> string \<Rightarrow> out_tree \<Rightarrow> string \<Rightarrow> node option \<Rightarrow> img_info list \<Rightarrow> string
     \<Rightarrow> (exn + bool) \<times> ui_msg list \<times> out_tree" where
  "save_selection_try F now OUTPUT_FOLDER product source_folder selected_images user =
     (if mkdir_raises F then (Inl OSError_mkdir, [], OUTPUT_FOLDER)
      else
        let d0 = (case OUTPUT_FOLDER product of None \<Rightarrow> Map.empty | Some d \<Rightarrow> d);
            out1 = OUTPUT_FOLDER(product \<mapsto> d0)
        in case missing_files F source_folder selected_images of
             Inl e \<Rightarrow> (Inl e, [], out1)
           | Inr missing \<Rightarrow>
               if missing \<noteq> []
               then (Inr False, [Error_missing_sources (length missing) (take 3 missing)], out1)
               else
                 let msgs = (if d0 ''selection.json'' \<noteq> None then [Warning_already_saved] else [])
                 in case copy_images F source_folder 1 selected_images d0 [] of
                      (Inl e, d1) \<Rightarrow> (Inl e, msgs, OUTPUT_FOLDER(product \<mapsto> d1))
                    | (Inr images_metadata, d1) \<Rightarrow>
                        (case publish_metadata F
                                \<lparr>product_name = product, completed = True, selected_by = user,
                                 timestamp = now, images = images_metadata\<rparr> d1 of
                           (Inl e, d2) \<Rightarrow> (Inl e, msgs, OUTPUT_FOLDER(product \<mapsto> d2))
                         | (Inr _, d2) \<Rightarrow> (Inr True, msgs, OUTPUT_FOLDER(product \<mapsto> d2))))"

text \<open>
  \<open>save_selection\<close>: the \<open>try\<close> block under its \<open>except Exception\<close> handler, which reports
  the exception and returns \<open>False\<close>.
\<close>

definition save_selection ::
  "faults \<Rightarrow> string \<Rightarrow> out_tree \<Rightarrow> string \<Rightarrow> node option \<Rightarrow> img_info list \<Rightarrow> string
     \<Rightarrow> bool \<times> ui_msg list \<times> out_tree" where
  "save_selection F now OUTPUT_FOLDER product source_folder selected_images user =
     (case save_selection_try F now OUTPUT_FOLDER product source_folder selected_images user of
        (Inl e, msgs, out) \<Rightarrow> (False, msgs @ [Error_saving e], out)
      | (Inr b, msgs, out) \<Rightarrow> (b, msgs, out))"

text \<open>No call raises.\<close>

definition no_faults :: faults where
  "no_faults = \<lparr>mkdir_raises = False, stat_raises = (\<lambda>_. False), copy_outcome = (\<lambda>_. Io_ok),
                write_outcome = Io_ok, replace_raises = False\<rparr>"

text \<open>The metadata file and the temporary file of a product, as a reader finds them.\<close>

definition selection_file :: "out_tree \<Rightarrow> string \<Rightarrow> content option" where
  "selection_file OUTPUT_FOLDER product =
     (case OUTPUT_FOLDER product of None \<Rightarrow> None | Some d \<Rightarrow> d ''selection.json'')"

definition temp_file :: "out_tree \<Rightarrow> string \<Rightarrow> content option" where
  "temp_file OUTPUT_FOLDER product =
     (case OUTPUT_FOLDER product of None \<Rightarrow> None | Some d \<Rightarrow> d ''.selection.json.tmp'')"

text \<open>The entry that the copy loop appends to \<open>images_metadata\<close> for the selection numbered \<open>idx\<close>.\<close>

definition image_meta_of :: "nat \<Rightarrow> img_info \<Rightarrow> image_meta" where
  "image_meta_of idx img =
     \<lparr>meta_original_file = original_file img,
      saved_file = new_filename idx (color_or_unknown (color img)) (lower (suffix (original_file img))),
      meta_color = color_or_unknown (color img)\<rparr>"

text \<open>
  The delete panel of \<open>main\<close> (lines 590 to 609) once \<open>Confirm Delete\<close> is pressed.
  \<open>read_raises\<close>: opening or parsing the metadata raises, and the button is never drawn.
  \<open>rmtree_stops\<close>: \<open>None\<close> when \<open>shutil.rmtree\<close> returns, \<open>Some removed\<close> when it raises
  after removing the files \<open>removed\<close>.
\<close>

datatype delete_result = Not_completed | Metadata_unreadable | Deleted | Delete_failed exn

definition delete_current_selection ::
  "bool \<Rightarrow> string set option \<Rightarrow> out_tree \<Rightarrow> string \<Rightarrow> delete_result \<times> out_tree" where
  "delete_current_selection read_raises rmtree_stops OUTPUT_FOLDER product =
     (if is_product_completed OUTPUT_FOLDER product then
        if read_raises then (Metadata_unreadable, OUTPUT_FOLDER)
        else case rmtree_stops of
               None \<Rightarrow> (Deleted, OUTPUT_FOLDER(product := None))
             | Some removed \<Rightarrow>
                 (Delete_failed OSError_rmtree,
                  (case OUTPUT_FOLDER product of
                     None \<Rightarrow> OUTPUT_FOLDER
                   | Some d \<Rightarrow> OUTPUT_FOLDER(product \<mapsto> d |` (- removed))))
      else (Not_completed, OUTPUT_FOLDER))"

section \<open>The review session\<close>

text \<open>
  \<open>st.session_state\<close>. \<open>current_selections\<close> is a Python dict, which iterates in insertion
  order: an association list with one pair per key, a new key going to the end and an
  assignment to an existing key keeping its place.
\<close>

record sel_entry =
  selected :: bool
  sel_color :: string

type_synonym selections = "(string \<times> sel_entry) list"

record session_state =
  product_folders :: "path list"
  current_index :: int
  username :: string
  current_selections :: selections
  last_loaded_product :: "string option"

text \<open>\<open>d[k] = v\<close>\<close>

fun dict_set :: "'k \<Rightarrow> 'v \<Rightarrow> ('k \<times> 'v) list \<Rightarrow> ('k \<times> 'v) list" where
  "dict_set k v [] = [(k, v)]"
| "dict_set k v ((k', v') # d) = (if k' = k then (k', v) # d else (k', v') # dict_set k v d)"

text \<open>\<open>d[k][field] = x\<close> for a key that is present: the entry is changed where it stands.\<close>

fun dict_modify :: "'k \<Rightarrow> ('v \<Rightarrow> 'v) \<Rightarrow> ('k \<times> 'v) list \<Rightarrow> ('k \<times> 'v) list" where
  "dict_modify k f [] = []"
| "dict_modify k f ((k', v') # d) =
     (if k' = k then (k', f v') # d else (k', v') # dict_modify k f d)"

definition reset_selections_for_product ::
  "string \<Rightarrow> path list \<Rightarrow> session_state \<Rightarrow> session_state" where
  "reset_selections_for_product product imgs st =
     (if last_loaded_product st \<noteq> Some product then
        st\<lparr>current_selections :=
              foldl (\<lambda>d img. dict_set (name img) \<lparr>selected = False, sel_color = ''unknown''\<rparr> d)
                [] imgs,
           last_loaded_product := Some product\<rparr>
      else st)"

definition go_to_previous :: "session_state \<Rightarrow> session_state" where
  "go_to_previous st =
     st\<lparr>current_index := max 0 (current_index st - 1), last_loaded_product := None\<rparr>"

definition go_to_next :: "session_state \<Rightarrow> session_state" where
  "go_to_next st =
     (let total = int (length (product_folders st))
      in st\<lparr>current_index := min (total - 1) (current_index st + 1),
            last_loaded_product := None\<rparr>)"

text \<open>
  Lines 414 to 416 of \<open>main\<close>: \<open>jump_to\<close> is the value the number input returned. The input
  is created with \<open>min_value=1\<close> and \<open>max_value=total_products\<close>; the code itself does not
  compare \<open>jump_to\<close> with either.
\<close>

definition jump_to_product :: "int \<Rightarrow> session_state \<Rightarrow> session_state" where
  "jump_to_product jump_to st =
     (if jump_to \<noteq> current_index st + 1
      then st\<lparr>current_index := jump_to - 1, last_loaded_product := None\<rparr>
      else st)"

text \<open>
  Lines 449 to 478 of \<open>main\<close>, the controls under one image: \<open>is_selected\<close> is what the
  checkbox returned and \<open>selected_color\<close> what the colour dropdown returned.
\<close>

definition image_cell :: "string \<Rightarrow> bool \<Rightarrow> string \<Rightarrow> selections \<Rightarrow> selections" where
  "image_cell image_name is_selected selected_color sels =
     (let s1 = (if image_name \<notin> fst ` set sels
                then dict_set image_name \<lparr>selected = False, sel_color = ''unknown''\<rparr> sels
                else sels);
          s2 = dict_modify image_name (\<lambda>e. e\<lparr>selected := is_selected\<rparr>) s1
      in if is_selected
         then dict_modify image_name (\<lambda>e. e\<lparr>sel_color := selected_color\<rparr>) s2
         else s2)"

text \<open>Lines 487 to 493 of \<open>main\<close>: the list handed to \<open>save_selection\<close>.\<close>

definition collect_selected_images :: "selections \<Rightarrow> img_info list" where
  "collect_selected_images sels =
     map (\<lambda>(img_name, sel_info). \<lparr>original_file = img_name, color = Some (sel_color sel_info)\<rparr>)
       (filter (\<lambda>(img_name, sel_info). selected sel_info) sels)"

section \<open>Properties of the catalog scanner\<close>

lemma listing_sorted_perm:
  "sorted (map (\<lambda>x. str_lower (name x)) (sort_key (\<lambda>x. str_lower (name x)) (filter P entries)))
   \<and> mset (sort_key (\<lambda>x. str_lower (name x)) (filter P entries)) = mset (filter P entries)"
  by simp

lemma listing_order_independent:
  assumes "mset entries' = mset entries"
    and "inj_on (\<lambda>x. str_lower (name x)) (set entries)"
  shows "sort_key (\<lambda>x. str_lower (name x)) (filter P entries')
       = sort_key (\<lambda>x. str_lower (name x)) (filter P entries)"
proof (rule sort_key_eq_sort_key)
  show "mset (filter P entries') = mset (filter P entries)"
    using assms(1) by simp
  have "set entries' = set entries"
    using assms(1) by (rule mset_eq_setD)
  then have "set (filter P entries') \<subseteq> set entries"
    by auto
  then show "inj_on (\<lambda>x. str_lower (name x)) (set (filter P entries'))"
    using assms(2) by (rule inj_on_subset[rotated])
qed

text \<open>
  What the two listings do deliver, whatever \<open>str.lower\<close> is: the product listing is the
  directories directly under the source root and the image listing the supported image
  files of a folder, each sorted by lowercased name; and two enumerations of the same
  directory give the same two listings when its entries differ pairwise in their
  lowercased names.
\<close>

lemma listings_sorted:
  "(\<exists>ps. get_all_product_folders str_lower (Some (Dir entries)) = Inr ps
         \<and> sorted (map (\<lambda>p. str_lower (name p)) ps)
         \<and> mset ps = mset (filter (\<lambda>f. is_dir (snd f)) entries))
   \<and> (\<exists>imgs. get_images_in_folder str_lower (Some (Dir entries)) = Inr imgs
         \<and> sorted (map (\<lambda>p. str_lower (name p)) imgs)
         \<and> mset imgs = mset (filter (\<lambda>item. is_file (snd item)
                                  \<and> str_lower (suffix (name item)) \<in> SUPPORTED_EXTENSIONS) entries))
   \<and> (mset entries' = mset entries \<and> inj_on (\<lambda>x. str_lower (name x)) (set entries)
        \<longrightarrow> get_all_product_folders str_lower (Some (Dir entries'))
              = get_all_product_folders str_lower (Some (Dir entries))
          \<and> get_images_in_folder str_lower (Some (Dir entries'))
              = get_images_in_folder str_lower (Some (Dir entries)))"
  unfolding get_all_product_folders_def get_images_in_folder_def
  using listing_order_independent[of entries' entries str_lower]
  by (simp add: listing_sorted_perm)

text \<open>
  C4. The listings are sorted by lowercased name, but they are not the same sequence for
  every enumeration of the same directory. \<open>iterdir\<close> yields the entries in an order the
  operating system chooses, the sort key of \<open>Shoe\<close> and of \<open>shoe\<close> is the same, and the
  stable sort leaves such entries in the order they came in: a source root holding the
  two directories is listed as \<open>Shoe\<close>, \<open>shoe\<close> under one enumeration and as \<open>shoe\<close>,
  \<open>Shoe\<close> under the other, and likewise the images \<open>A.png\<close> and \<open>a.png\<close> of one folder.
  On these ASCII names \<open>str.lower\<close> is \<open>lower\<close>.
\<close>

theorem listings_case_ties_follow_enumeration:
  "mset [(''Shoe'', Dir []), (''shoe'', Dir [])] = mset [(''shoe'', Dir []), (''Shoe'', Dir [])]
   \<and> get_all_product_folders lower (Some (Dir [(''Shoe'', Dir []), (''shoe'', Dir [])]))
       = Inr [(''Shoe'', Dir []), (''shoe'', Dir [])]
   \<and> get_all_product_folders lower (Some (Dir [(''shoe'', Dir []), (''Shoe'', Dir [])]))
       = Inr [(''shoe'', Dir []), (''Shoe'', Dir [])]
   \<and> get_all_product_folders lower (Some (Dir [(''Shoe'', Dir []), (''shoe'', Dir [])]))
       \<noteq> get_all_product_folders lower (Some (Dir [(''shoe'', Dir []), (''Shoe'', Dir [])]))
   \<and> mset [(''A.png'', File (Bytes ''1'')), (''a.png'', File (Bytes ''2''))]
       = mset [(''a.png'', File (Bytes ''2'')), (''A.png'', File (Bytes ''1''))]
   \<and> get_images_in_folder lower
         (Some (Dir [(''A.png'', File (Bytes ''1'')), (''a.png'', File (Bytes ''2''))]))
       = Inr [(''A.png'', File (Bytes ''1'')), (''a.png'', File (Bytes ''2''))]
   \<and> get_images_in_folder lower
         (Some (Dir [(''a.png'', File (Bytes ''2'')), (''A.png'', File (Bytes ''1''))]))
       = Inr [(''a.png'', File (Bytes ''2'')), (''A.png'', File (Bytes ''1''))]
   \<and> get_images_in_folder lower
         (Some (Dir [(''A.png'', File (Bytes ''1'')), (''a.png'', File (Bytes ''2''))]))
       \<noteq> get_images_in_folder lower
           (Some (Dir [(''a.png'', File (Bytes ''2'')), (''A.png'', File (Bytes ''1''))]))"
proof -
  have p1: "get_all_product_folders lower (Some (Dir [(''Shoe'', Dir []), (''shoe'', Dir [])]))
       = Inr [(''Shoe'', Dir []), (''shoe'', Dir [])]"
    by code_simp
  have p2: "get_all_product_folders lower (Some (Dir [(''shoe'', Dir []), (''Shoe'', Dir [])]))
       = Inr [(''shoe'', Dir []), (''Shoe'', Dir [])]"
    by code_simp
  have i1: "get_images_in_folder lower
         (Some (Dir [(''A.png'', File (Bytes ''1'')), (''a.png'', File (Bytes ''2''))]))
       = Inr [(''A.png'', File (Bytes ''1'')), (''a.png'', File (Bytes ''2''))]"
    by code_simp
  have i2: "get_images_in_folder lower
         (Some (Dir [(''a.png'', File (Bytes ''2'')), (''A.png'', File (Bytes ''1''))]))
       = Inr [(''a.png'', File (Bytes ''2'')), (''A.png'', File (Bytes ''1''))]"
    by code_simp
  show ?thesis
    unfolding p1 p2 i1 i2 by (simp add: add_mset_commute)
qed

text \<open>
  C9. Every entry that the image listing returns is an entry of the folder, is a file (so
  no subdirectory), and has a lowercased extension in the supported set.
\<close>

theorem get_images_in_folder_supported:
  assumes "get_images_in_folder str_lower folder_path = Inr imgs"
  shows "\<forall>item\<in>set imgs.
           is_file (snd item)
         \<and> str_lower (suffix (name item))
             \<in> {''.jpg'', ''.jpeg'', ''.png'', ''.webp'', ''.gif'', ''.bmp'', ''.tiff''}
         \<and> (\<exists>entries. folder_path = Some (Dir entries) \<and> item \<in> set entries)"
  using assms unfolding get_images_in_folder_def SUPPORTED_EXTENSIONS_def
  by (auto split: option.splits node.splits)

theorem get_images_in_folder_supported_witness:
  "get_images_in_folder lower (Some (Dir
        [(''b.PNG'', File (Bytes [])), (''notes.txt'', File (Bytes [])),
         (''sub.png'', Dir []), (''a.jpg'', File (Bytes []))]))
     = Inr [(''a.jpg'', File (Bytes [])), (''b.PNG'', File (Bytes []))]
   \<and> lower (suffix ''a.jpg'')
         \<in> {''.jpg'', ''.jpeg'', ''.png'', ''.webp'', ''.gif'', ''.bmp'', ''.tiff''}
   \<and> lower (suffix ''b.PNG'')
         \<in> {''.jpg'', ''.jpeg'', ''.png'', ''.webp'', ''.gif'', ''.bmp'', ''.tiff''}"
proof -
  have h: "get_images_in_folder lower (Some (Dir
        [(''b.PNG'', File (Bytes [])), (''notes.txt'', File (Bytes [])),
         (''sub.png'', Dir []), (''a.jpg'', File (Bytes []))]))
     = Inr [(''a.jpg'', File (Bytes [])), (''b.PNG'', File (Bytes []))]"
    by code_simp
  from get_images_in_folder_supported[OF h] h show ?thesis
    by simp
qed

section \<open>Properties of the review session\<close>

lemma map_of_dict_set_same: "map_of (dict_set k v d) k = Some v"
  by (induction d) auto

lemma map_of_dict_modify_same: "map_of (dict_modify k f d) k = map_option f (map_of d k)"
  by (induction d) auto

lemma map_of_dict_modify_other: "k' \<noteq> k \<Longrightarrow> map_of (dict_modify k f d) k' = map_of d k'"
  by (induction d) auto

lemma keys_dict_modify: "map fst (dict_modify k f d) = map fst d"
  by (induction d) auto

lemma keys_dict_set_old: "k \<in> fst ` set d \<Longrightarrow> map fst (dict_set k v d) = map fst d"
  by (induction d) force+

lemma keys_dict_set_new: "k \<notin> fst ` set d \<Longrightarrow> map fst (dict_set k v d) = map fst d @ [k]"
  by (induction d) auto

lemma not_key_iff: "k \<notin> fst ` set d \<longleftrightarrow> map_of d k = None"
  by (simp add: map_of_eq_None_iff)

text \<open>
  C7, as amended. Over a non-empty product list and an index in range, \<open>go_to_previous\<close>
  gives \<open>max 0 (index - 1)\<close> and \<open>go_to_next\<close> gives \<open>min (n - 1) (index + 1)\<close>, both in
  range; a jump to a product number between 1 and n, which is all the number input
  returns, gives that number minus one, in range. The code does not clamp the number it
  is given.
\<close>

theorem navigation_index_in_range:
  assumes "product_folders st \<noteq> []"
    and "0 \<le> current_index st"
    and "current_index st \<le> int (length (product_folders st)) - 1"
  shows "current_index (go_to_previous st) = max 0 (current_index st - 1)
       \<and> 0 \<le> current_index (go_to_previous st)
       \<and> current_index (go_to_previous st) \<le> int (length (product_folders (go_to_previous st))) - 1
       \<and> current_index (go_to_next st) = min (int (length (product_folders st)) - 1) (current_index st + 1)
       \<and> 0 \<le> current_index (go_to_next st)
       \<and> current_index (go_to_next st) \<le> int (length (product_folders (go_to_next st))) - 1
       \<and> (1 \<le> jump_to \<and> jump_to \<le> int (length (product_folders st))
            \<longrightarrow> current_index (jump_to_product jump_to st) = jump_to - 1
              \<and> 0 \<le> current_index (jump_to_product jump_to st)
              \<and> current_index (jump_to_product jump_to st)
                   \<le> int (length (product_folders (jump_to_product jump_to st))) - 1)"
  using assms by (auto simp: go_to_previous_def go_to_next_def jump_to_product_def Let_def)

theorem navigation_index_in_range_witness:
  "current_index (go_to_previous
      \<lparr>product_folders = [(''a'', Dir []), (''b'', Dir []), (''c'', Dir [])],
         current_index = 0, username = [], current_selections = [],
         last_loaded_product = None\<rparr>) = 0
   \<and> current_index (go_to_next
      \<lparr>product_folders = [(''a'', Dir []), (''b'', Dir []), (''c'', Dir [])],
         current_index = 2, username = [], current_selections = [],
         last_loaded_product = None\<rparr>) = 2
   \<and> current_index (jump_to_product 3
      \<lparr>product_folders = [(''a'', Dir []), (''b'', Dir []), (''c'', Dir [])],
         current_index = 0, username = [], current_selections = [],
         last_loaded_product = None\<rparr>) = 2"
  using navigation_index_in_range[of "\<lparr>product_folders = [(''a'', Dir []), (''b'', Dir []), (''c'', Dir [])],
         current_index = 0, username = [], current_selections = [],
         last_loaded_product = None\<rparr>" 3]
    navigation_index_in_range[of "\<lparr>product_folders = [(''a'', Dir []), (''b'', Dir []), (''c'', Dir [])],
         current_index = 2, username = [], current_selections = [],
         last_loaded_product = None\<rparr>" 3]
  by simp

text \<open>
  C7 as stated fails: handed the product number 5 over three products, the jump sets the
  index to 4, which is neither 2 nor inside the range 0 to 2.
\<close>

theorem jump_to_product_not_clamped:
  "current_index (jump_to_product 5
      \<lparr>product_folders = [(''a'', Dir []), (''b'', Dir []), (''c'', Dir [])],
         current_index = 0, username = [], current_selections = [],
         last_loaded_product = None\<rparr>) = 4"
  by (simp add: jump_to_product_def)

text \<open>
  C6, as amended. The colour returned by the dropdown is stored in the image's entry
  exactly when the checkbox is ticked; when it is not, the entry keeps the colour it had
  (\<open>unknown\<close> for an entry that is new).
\<close>

theorem image_cell_stores_color_when_selected:
  "(is_selected \<longrightarrow>
      (\<exists>e. map_of (image_cell image_name is_selected selected_color sels) image_name = Some e
          \<and> selected e \<and> sel_color e = selected_color))
   \<and> (\<not> is_selected \<longrightarrow>
      (\<exists>e. map_of (image_cell image_name is_selected selected_color sels) image_name = Some e
          \<and> \<not> selected e
          \<and> sel_color e = (case map_of sels image_name of
                              None \<Rightarrow> ''unknown''
                            | Some e0 \<Rightarrow> sel_color e0)))"
  by (cases "map_of sels image_name")
     (auto simp: image_cell_def Let_def not_key_iff map_of_dict_modify_same map_of_dict_set_same)

theorem image_cell_stores_color_when_selected_witness:
  "(\<exists>e. map_of (image_cell ''a.png'' True ''red''
            [(''a.png'', \<lparr>selected = False, sel_color = ''unknown''\<rparr>)]) ''a.png'' = Some e
        \<and> selected e \<and> sel_color e = ''red'')
   \<and> (\<exists>e. map_of (image_cell ''a.png'' False ''blue''
            [(''a.png'', \<lparr>selected = True, sel_color = ''red''\<rparr>)]) ''a.png'' = Some e
        \<and> \<not> selected e \<and> sel_color e = ''red'')"
  using image_cell_stores_color_when_selected[of True "''a.png''" "''red''"
          "[(''a.png'', \<lparr>selected = False, sel_color = ''unknown''\<rparr>)]"]
    image_cell_stores_color_when_selected[of False "''a.png''" "''blue''"
          "[(''a.png'', \<lparr>selected = True, sel_color = ''red''\<rparr>)]"]
  by simp

text \<open>
  C6 as stated fails: with the checkbox not ticked, the colour \<open>red\<close> handed to the cell of
  \<open>a.png\<close> is not stored; the entry still reads \<open>unknown\<close>.
\<close>

theorem image_cell_unselected_color_not_stored:
  "image_cell ''a.png'' False ''red'' [(''a.png'', \<lparr>selected = False, sel_color = ''unknown''\<rparr>)]
     = [(''a.png'', \<lparr>selected = False, sel_color = ''unknown''\<rparr>)]"
  by (simp add: image_cell_def)

section \<open>Properties of the selection store\<close>

subsection \<open>File names\<close>

lemma digit_char_in: "d < 10 \<Longrightarrow> digit_char d \<in> set ''0123456789''"
  unfolding digit_char_def by (rule nth_mem) simp

lemma digit_char_inj: "d < 10 \<Longrightarrow> d' < 10 \<Longrightarrow> digit_char d = digit_char d' \<Longrightarrow> d = d'"
  unfolding digit_char_def
  by (subst (asm) nth_eq_iff_index_eq) simp_all

lemma str_nat_digits: "set (str_nat n) \<subseteq> set ''0123456789''"
proof (induction n rule: str_nat.induct)
  case (1 n)
  show ?case
  proof (cases "n < 10")
    case True
    then show ?thesis
      using digit_char_in[of n] by (subst str_nat.simps) simp
  next
    case False
    then show ?thesis
      using 1 digit_char_in[of "n mod 10"] by (subst str_nat.simps) simp
  qed
qed

lemma str_nat_no_underscore: "CHR ''_'' \<notin> set (str_nat n)"
  using str_nat_digits[of n] by auto

lemma str_nat_not_Nil: "str_nat n \<noteq> []"
  by (subst str_nat.simps) simp

lemma str_nat_length_one: "length (str_nat n) = Suc 0 \<longleftrightarrow> n < 10"
  using str_nat_not_Nil[of "n div 10"] by (subst str_nat.simps) (auto simp: Suc_length_conv)

lemma str_nat_inj: "str_nat m = str_nat n \<Longrightarrow> m = n"
proof (induction m arbitrary: n rule: str_nat.induct)
  case (1 m)
  show ?case
  proof (cases "m < 10")
    case True
    then have "length (str_nat n) = 1"
      using 1(2) str_nat_length_one[of m] by simp
    then have n: "n < 10"
      by (simp add: str_nat_length_one)
    from 1(2) True n have "[digit_char m] = [digit_char n]"
      by (simp add: str_nat.simps[of m] str_nat.simps[of n])
    then show ?thesis
      using True n digit_char_inj by simp
  next
    case False
    then have "length (str_nat n) \<noteq> 1"
      using 1(2) str_nat_length_one[of m] by simp
    then have n: "\<not> n < 10"
      by (simp add: str_nat_length_one)
    from 1(2) False n
    have eq: "str_nat (m div 10) @ [digit_char (m mod 10)] = str_nat (n div 10) @ [digit_char (n mod 10)]"
      by (simp add: str_nat.simps[of m] str_nat.simps[of n])
    then have "str_nat (m div 10) = str_nat (n div 10)" and d: "digit_char (m mod 10) = digit_char (n mod 10)"
      by simp_all
    then have "m div 10 = n div 10"
      using 1(1)[OF False] by simp
    moreover have "m mod 10 = n mod 10"
      using d digit_char_inj[of "m mod 10" "n mod 10"] by simp
    ultimately show ?thesis
      by (metis div_mult_mod_eq)
  qed
qed

lemma takeWhile_up_to: "a \<notin> set xs \<Longrightarrow> takeWhile (\<lambda>c. c \<noteq> a) (xs @ a # r) = xs"
  by (induction xs) auto

lemma split_at_first:
  assumes "xs @ a # r = ys @ a # r'" and "a \<notin> set xs" and "a \<notin> set ys"
  shows "xs = ys"
proof -
  have "takeWhile (\<lambda>c. c \<noteq> a) (xs @ a # r) = xs"
    using assms(2) by (rule takeWhile_up_to)
  moreover have "takeWhile (\<lambda>c. c \<noteq> a) (ys @ a # r') = ys"
    using assms(3) by (rule takeWhile_up_to)
  ultimately show ?thesis
    using assms(1) by simp
qed

lemma new_filename_inj: "new_filename i col ext = new_filename j col' ext' \<Longrightarrow> i = j"
proof -
  assume "new_filename i col ext = new_filename j col' ext'"
  then have "str_nat i @ CHR ''_'' # (col @ ext) = str_nat j @ CHR ''_'' # (col' @ ext')"
    by (simp add: new_filename_def)
  then have "str_nat i = str_nat j"
    by (rule split_at_first) (rule str_nat_no_underscore)+
  then show "i = j"
    by (rule str_nat_inj)
qed

lemma new_filename_not_metadata:
  "new_filename i col ext \<noteq> ''selection.json''"
  "new_filename i col ext \<noteq> ''.selection.json.tmp''"
  by (simp_all add: new_filename_def)

subsection \<open>The copy loop\<close>

lemma copy_images_metas:
  "copy_images F src idx sel d metas = (Inr ms, d')
   \<Longrightarrow> ms = metas @ map (\<lambda>(i, img). image_meta_of i img) (zip [idx..<idx + length sel] sel)"
proof (induction sel arbitrary: idx d metas)
  case Nil
  then show ?case by simp
next
  case (Cons img rest)
  from Cons.prems obtain c where
    rec: "copy_images F src (Suc idx) rest
            (d(new_filename idx (color_or_unknown (color img)) (lower (suffix (original_file img))) \<mapsto> c))
            (metas @ [image_meta_of idx img]) = (Inr ms, d')"
    by (auto simp: Let_def image_meta_of_def split: option.splits node.splits io_outcome.splits)
  have "[idx..<idx + length (img # rest)] = idx # [Suc idx..<Suc idx + length rest]"
    by (simp add: upt_rec)
  then show ?case
    using Cons.IH[OF rec] by simp
qed

lemma copy_images_frame:
  "copy_images F src idx sel d metas = (r, d')
   \<Longrightarrow> (\<And>i col ext. idx \<le> i \<Longrightarrow> n \<noteq> new_filename i col ext)
   \<Longrightarrow> d' n = d n"
proof (induction sel arbitrary: idx d metas)
  case Nil
  then show ?case by simp
next
  case (Cons img rest)
  let ?new = "new_filename idx (color_or_unknown (color img)) (lower (suffix (original_file img)))"
  have neq: "n \<noteq> ?new"
    using Cons.prems(2)[of idx] by simp
  show ?case
  proof (cases "source_lookup src (original_file img)")
    case None
    then show ?thesis using Cons.prems(1) by (simp add: Let_def)
  next
    case (Some nd)
    show ?thesis
    proof (cases nd)
      case (Dir es)
      then show ?thesis using Some Cons.prems(1) by (simp add: Let_def)
    next
      case (File c)
      show ?thesis
      proof (cases "copy_outcome F idx")
        case Io_ok
        then have rec: "copy_images F src (Suc idx) rest (d(?new \<mapsto> c))
              (metas @ [\<lparr>meta_original_file = original_file img, saved_file = ?new,
                               meta_color = color_or_unknown (color img)\<rparr>]) = (r, d')"
          using Some File Cons.prems(1) by (simp add: Let_def)
        have "d' n = (d(?new \<mapsto> c)) n"
          using rec
        proof (rule Cons.IH)
          fix i col ext
          assume "Suc idx \<le> i"
          then show "n \<noteq> new_filename i col ext"
            using Cons.prems(2)[of i] by simp
        qed
        then show ?thesis using neq by simp
      next
        case (Io_raises p)
        then show ?thesis
          using Some File Cons.prems(1) neq by (cases p) (auto simp: Let_def)
      qed
    qed
  qed
qed

lemma copy_images_copied:
  "copy_images F src idx sel d metas = (Inr ms, d')
   \<Longrightarrow> k < length sel
   \<Longrightarrow> copy_outcome F (idx + k) = Io_ok
     \<and> (\<exists>c. source_lookup src (original_file (sel ! k)) = Some (File c)
           \<and> d' (new_filename (idx + k) (color_or_unknown (color (sel ! k)))
                   (lower (suffix (original_file (sel ! k))))) = Some c)"
proof (induction sel arbitrary: idx d metas k)
  case Nil
  then show ?case by simp
next
  case (Cons img rest)
  let ?new = "new_filename idx (color_or_unknown (color img)) (lower (suffix (original_file img)))"
  from Cons.prems(1) obtain c where
    src: "source_lookup src (original_file img) = Some (File c)"
    and ok: "copy_outcome F idx = Io_ok"
    and rec: "copy_images F src (Suc idx) rest (d(?new \<mapsto> c))
            (metas @ [image_meta_of idx img]) = (Inr ms, d')"
    by (auto simp: Let_def image_meta_of_def split: option.splits node.splits io_outcome.splits)
  show ?case
  proof (cases k)
    case 0
    have "d' ?new = (d(?new \<mapsto> c)) ?new"
      using rec
    proof (rule copy_images_frame)
      fix i col ext
      assume "Suc idx \<le> i"
      then have "i \<noteq> idx" by simp
      then show "?new \<noteq> new_filename i col ext"
        using new_filename_inj[of idx _ _ i col ext] by auto
    qed
    then show ?thesis using 0 src ok by simp
  next
    case (Suc k')
    then have "k' < length rest" using Cons.prems(2) by simp
    from Cons.IH[OF rec this] show ?thesis using Suc by simp
  qed
qed

subsection \<open>Publishing the metadata and the outcome of a save\<close>

lemma copy_images_keeps_metadata:
  assumes "copy_images F src idx sel d metas = (r, d')"
  shows "d' ''selection.json'' = d ''selection.json''"
    and "d' ''.selection.json.tmp'' = d ''.selection.json.tmp''"
  using assms by (rule copy_images_frame; simp add: new_filename_def)+

lemma publish_metadata_ok:
  "publish_metadata F data d = (Inr u, d')
   \<Longrightarrow> write_outcome F = Io_ok \<and> \<not> replace_raises F
     \<and> d' = (d(''.selection.json.tmp'' := None))(''selection.json'' \<mapsto> Json data)"
  by (auto simp: publish_metadata_def Let_def split: io_outcome.splits option.splits if_splits)

lemma publish_metadata_raises:
  "publish_metadata F data d = (Inl e, d')
   \<Longrightarrow> d' ''selection.json'' = d ''selection.json''
     \<and> (\<forall>n. n \<noteq> ''.selection.json.tmp'' \<longrightarrow> d' n = d n)
     \<and> (e = OSError_replace \<longrightarrow> d' ''.selection.json.tmp'' = Some (Json data))"
  by (auto simp: publish_metadata_def Let_def split: io_outcome.splits option.splits if_splits)

lemma save_selection_True:
  assumes "save_selection F now OUT p src sel user = (True, msgs, OUT')"
  shows "\<not> mkdir_raises F \<and> write_outcome F = Io_ok \<and> \<not> replace_raises F
       \<and> missing_files F src sel = Inr []
       \<and> (\<exists>d1. copy_images F src 1 sel (case OUT p of None \<Rightarrow> Map.empty | Some d \<Rightarrow> d) []
                  = (Inr (map (\<lambda>(i, img). image_meta_of i img) (zip [1..<1 + length sel] sel)), d1)
              \<and> OUT' = OUT(p \<mapsto> (d1(''.selection.json.tmp'' := None))(''selection.json'' \<mapsto>
                     Json \<lparr>product_name = p, completed = True, selected_by = user, timestamp = now,
                           images = map (\<lambda>(i, img). image_meta_of i img)
                                      (zip [1..<1 + length sel] sel)\<rparr>)))"
proof -
  from assms have nomk: "\<not> mkdir_raises F"
    by (auto simp: save_selection_def save_selection_try_def)
  let ?d0 = "case OUT p of None \<Rightarrow> Map.empty | Some d \<Rightarrow> d"
  from assms nomk have miss: "missing_files F src sel = Inr []"
    by (auto simp: save_selection_def save_selection_try_def Let_def split: sum.splits if_splits prod.splits)
  obtain r d1 where ci: "copy_images F src 1 sel ?d0 [] = (r, d1)"
    by (cases "copy_images F src 1 sel ?d0 []") auto
  from assms nomk miss ci obtain ms where r: "r = Inr ms"
    by (cases r) (auto simp: save_selection_def save_selection_try_def Let_def split: sum.splits if_splits prod.splits)
  have ms: "ms = map (\<lambda>(i, img). image_meta_of i img) (zip [1..<1 + length sel] sel)"
    using copy_images_metas[OF ci[unfolded r]] by simp
  let ?data = "\<lparr>product_name = p, completed = True, selected_by = user, timestamp = now, images = ms\<rparr>"
  obtain r2 d2 where pm: "publish_metadata F ?data d1 = (r2, d2)"
    by (cases "publish_metadata F ?data d1") auto
  from assms nomk miss ci r pm obtain u where r2: "r2 = Inr u" and out: "OUT' = OUT(p \<mapsto> d2)"
    by (cases r2) (auto simp: save_selection_def save_selection_try_def Let_def split: if_splits)
  from publish_metadata_ok[OF pm[unfolded r2]] nomk miss ci r ms out show ?thesis
    by simp
qed

lemma save_selection_False:
  assumes "save_selection F now OUT p src sel user = (False, msgs, OUT')"
  shows "selection_file OUT' p = selection_file OUT p \<and> (\<forall>q. q \<noteq> p \<longrightarrow> OUT' q = OUT q)"
proof (cases "mkdir_raises F")
  case True
  with assms show ?thesis
    by (auto simp: save_selection_def save_selection_try_def)
next
  case nomk: False
  let ?d0 = "case OUT p of None \<Rightarrow> Map.empty | Some d \<Rightarrow> d"
  have d0: "selection_file (OUT(p \<mapsto> ?d0)) p = selection_file OUT p"
    by (simp add: selection_file_def split: option.splits)
  show ?thesis
  proof (cases "missing_files F src sel")
    case (Inl e)
    with assms nomk d0 show ?thesis
      by (auto simp: save_selection_def save_selection_try_def Let_def)
  next
    case (Inr missing)
    show ?thesis
    proof (cases "missing = []")
      case False
      with assms nomk d0 Inr show ?thesis
        by (auto simp: save_selection_def save_selection_try_def Let_def)
    next
      case True
      obtain r d1 where ci: "copy_images F src 1 sel ?d0 [] = (r, d1)"
        by (cases "copy_images F src 1 sel ?d0 []") auto
      have d1: "d1 ''selection.json'' = ?d0 ''selection.json''"
        using ci by (rule copy_images_keeps_metadata)
      show ?thesis
      proof (cases r)
        case (Inl e)
        with assms nomk Inr True ci have "OUT' = OUT(p \<mapsto> d1)"
          by (auto simp: save_selection_def save_selection_try_def Let_def)
        then show ?thesis
          using d1 by (simp add: selection_file_def split: option.splits)
      next
        case (Inr ms)
        let ?data = "\<lparr>product_name = p, completed = True, selected_by = user, timestamp = now, images = ms\<rparr>"
        obtain r2 d2 where pm: "publish_metadata F ?data d1 = (r2, d2)"
          by (cases "publish_metadata F ?data d1") auto
        from assms nomk \<open>missing_files F src sel = Inr missing\<close> True ci Inr pm
        obtain e where r2: "r2 = Inl e" and out: "OUT' = OUT(p \<mapsto> d2)"
          by (cases r2) (auto simp: save_selection_def save_selection_try_def Let_def split: if_splits)
        from publish_metadata_raises[OF pm[unfolded r2]] have "d2 ''selection.json'' = d1 ''selection.json''"
          by simp
        then show ?thesis
          using d1 out by (simp add: selection_file_def split: option.splits)
      qed
    qed
  qed
qed

lemma missing_files_no_replace: "missing_files F src sel = Inl e \<Longrightarrow> e \<noteq> OSError_replace"
  by (induction sel arbitrary: e) (auto split: if_splits sum.splits)

lemma copy_images_no_replace:
  "copy_images F src idx sel d metas = (Inl e, d') \<Longrightarrow> e \<noteq> OSError_replace"
  by (induction sel arbitrary: idx d metas)
     (auto simp: Let_def split: option.splits node.splits io_outcome.splits)

lemma save_selection_try_replace_raised:
  assumes "save_selection_try F now OUT p src sel user = (Inl OSError_replace, m, T)"
  shows "temp_file T p
           = Some (Json \<lparr>product_name = p, completed = True, selected_by = user, timestamp = now,
                         images = map (\<lambda>(i, img). image_meta_of i img)
                                    (zip [1..<1 + length sel] sel)\<rparr>)
       \<and> selection_file T p = selection_file OUT p"
proof -
  from assms have nomk: "\<not> mkdir_raises F"
    by (auto simp: save_selection_try_def)
  let ?d0 = "case OUT p of None \<Rightarrow> Map.empty | Some d \<Rightarrow> d"
  obtain missing where miss: "missing_files F src sel = Inr missing"
    using assms nomk missing_files_no_replace[of F src sel]
    by (cases "missing_files F src sel") (auto simp: save_selection_try_def Let_def)
  from assms nomk miss have none: "missing = []"
    by (auto simp: save_selection_try_def Let_def split: if_splits)
  obtain r d1 where ci: "copy_images F src 1 sel ?d0 [] = (r, d1)"
    by (cases "copy_images F src 1 sel ?d0 []") auto
  have d1: "d1 ''selection.json'' = ?d0 ''selection.json''"
    using ci by (rule copy_images_keeps_metadata)
  obtain ms where r: "r = Inr ms"
    using assms nomk miss none ci copy_images_no_replace[of F src 1 sel ?d0 "[]" _ d1]
    by (cases r) (auto simp: save_selection_try_def Let_def)
  have ms: "ms = map (\<lambda>(i, img). image_meta_of i img) (zip [1..<1 + length sel] sel)"
    using copy_images_metas[OF ci[unfolded r]] by simp
  let ?data = "\<lparr>product_name = p, completed = True, selected_by = user, timestamp = now, images = ms\<rparr>"
  obtain r2 d2 where pm: "publish_metadata F ?data d1 = (r2, d2)"
    by (cases "publish_metadata F ?data d1") auto
  from assms nomk miss none ci r pm have r2: "r2 = Inl OSError_replace" and out: "T = OUT(p \<mapsto> d2)"
    by (cases r2; auto simp: save_selection_try_def Let_def split: if_splits)+
  from publish_metadata_raises[OF pm[unfolded r2]] d1 out ms show ?thesis
    by (simp add: temp_file_def selection_file_def split: option.splits)
qed

text \<open>
  C1. The record is written to the temporary file and then renamed over the metadata file.
  After a save that returns \<open>True\<close> the metadata file holds the record of the full new
  selection list and the temporary file is gone; after a save that returns \<open>False\<close> the
  metadata file is what it was before the call. When the rename itself raises, the record
  sits complete in the temporary file while the metadata file is still the old one.
\<close>

theorem save_selection_metadata_atomic:
  assumes "save_selection F now OUT p src sel user = (ok, msgs, OUT')"
  shows "(ok \<longrightarrow>
            selection_file OUT' p
              = Some (Json \<lparr>product_name = p, completed = True, selected_by = user, timestamp = now,
                    images = map (\<lambda>(i, img).
                        \<lparr>meta_original_file = original_file img,
                         saved_file = new_filename i (color_or_unknown (color img))
                                        (lower (suffix (original_file img))),
                         meta_color = color_or_unknown (color img)\<rparr>)
                      (zip [1..<1 + length sel] sel)\<rparr>)
          \<and> temp_file OUT' p = None)
       \<and> (\<not> ok \<longrightarrow> selection_file OUT' p = selection_file OUT p)
       \<and> (\<forall>m T. save_selection_try F now OUT p src sel user = (Inl OSError_replace, m, T)
             \<longrightarrow> selection_file T p = selection_file OUT p
               \<and> temp_file T p
                   = Some (Json \<lparr>product_name = p, completed = True, selected_by = user,
                       timestamp = now,
                       images = map (\<lambda>(i, img).
                           \<lparr>meta_original_file = original_file img,
                            saved_file = new_filename i (color_or_unknown (color img))
                                           (lower (suffix (original_file img))),
                            meta_color = color_or_unknown (color img)\<rparr>)
                         (zip [1..<1 + length sel] sel)\<rparr>))"
proof (intro conjI impI allI)
  assume ok
  with assms have "save_selection F now OUT p src sel user = (True, msgs, OUT')" by simp
  from save_selection_True[OF this]
  show "selection_file OUT' p
              = Some (Json \<lparr>product_name = p, completed = True, selected_by = user, timestamp = now,
                    images = map (\<lambda>(i, img).
                        \<lparr>meta_original_file = original_file img,
                         saved_file = new_filename i (color_or_unknown (color img))
                                        (lower (suffix (original_file img))),
                         meta_color = color_or_unknown (color img)\<rparr>)
                      (zip [1..<1 + length sel] sel)\<rparr>)"
    and "temp_file OUT' p = None"
    by (auto simp: selection_file_def temp_file_def image_meta_of_def)
next
  assume "\<not> ok"
  with assms have "save_selection F now OUT p src sel user = (False, msgs, OUT')" by simp
  from save_selection_False[OF this] show "selection_file OUT' p = selection_file OUT p"
    by simp
next
  fix m T
  assume "save_selection_try F now OUT p src sel user = (Inl OSError_replace, m, T)"
  from save_selection_try_replace_raised[OF this]
  show "selection_file T p = selection_file OUT p"
    and "temp_file T p
                   = Some (Json \<lparr>product_name = p, completed = True, selected_by = user,
                       timestamp = now,
                       images = map (\<lambda>(i, img).
                           \<lparr>meta_original_file = original_file img,
                            saved_file = new_filename i (color_or_unknown (color img))
                                           (lower (suffix (original_file img))),
                            meta_color = color_or_unknown (color img)\<rparr>)
                         (zip [1..<1 + length sel] sel)\<rparr>)"
    by (simp_all add: image_meta_of_def)
qed

theorem save_selection_metadata_atomic_witness:
  "fst (save_selection no_faults ''t'' Map.empty ''p''
          (Some (Dir [(''b.PNG'', File (Bytes ''bb'')), (''a.jpg'', File (Bytes ''aa''))]))
          [\<lparr>original_file = ''b.PNG'', color = Some ''red''\<rparr>,
           \<lparr>original_file = ''a.jpg'', color = None\<rparr>] ''me'')
   \<and> selection_file (snd (snd (save_selection no_faults ''t'' Map.empty ''p''
          (Some (Dir [(''b.PNG'', File (Bytes ''bb'')), (''a.jpg'', File (Bytes ''aa''))]))
          [\<lparr>original_file = ''b.PNG'', color = Some ''red''\<rparr>,
           \<lparr>original_file = ''a.jpg'', color = None\<rparr>] ''me''))) ''p''
       = Some (Json \<lparr>product_name = ''p'', completed = True, selected_by = ''me'',
            timestamp = ''t'',
            images = [\<lparr>meta_original_file = ''b.PNG'', saved_file = ''ref_1_red.png'',
                         meta_color = ''red''\<rparr>,
                      \<lparr>meta_original_file = ''a.jpg'', saved_file = ''ref_2_unknown.jpg'',
                         meta_color = ''unknown''\<rparr>]\<rparr>)
   \<and> \<not> fst (save_selection (no_faults\<lparr>copy_outcome := (\<lambda>i. if i = 2 then Io_raises None else Io_ok)\<rparr>)
          ''t'' [''p'' \<mapsto> [''selection.json'' \<mapsto> Bytes ''old'']] ''p''
          (Some (Dir [(''b.PNG'', File (Bytes ''bb'')), (''a.jpg'', File (Bytes ''aa''))]))
          [\<lparr>original_file = ''b.PNG'', color = Some ''red''\<rparr>,
           \<lparr>original_file = ''a.jpg'', color = None\<rparr>] ''me'')
   \<and> selection_file (snd (snd (save_selection
          (no_faults\<lparr>copy_outcome := (\<lambda>i. if i = 2 then Io_raises None else Io_ok)\<rparr>)
          ''t'' [''p'' \<mapsto> [''selection.json'' \<mapsto> Bytes ''old'']] ''p''
          (Some (Dir [(''b.PNG'', File (Bytes ''bb'')), (''a.jpg'', File (Bytes ''aa''))]))
          [\<lparr>original_file = ''b.PNG'', color = Some ''red''\<rparr>,
           \<lparr>original_file = ''a.jpg'', color = None\<rparr>] ''me''))) ''p''
       = Some (Bytes ''old'')
   \<and> fst (save_selection_try (no_faults\<lparr>replace_raises := True\<rparr>)
          ''t'' [''p'' \<mapsto> [''selection.json'' \<mapsto> Bytes ''old'']] ''p''
          (Some (Dir [(''b.PNG'', File (Bytes ''bb''))]))
          [\<lparr>original_file = ''b.PNG'', color = Some ''red''\<rparr>] ''me'') = Inl OSError_replace
   \<and> selection_file (snd (snd (save_selection_try (no_faults\<lparr>replace_raises := True\<rparr>)
          ''t'' [''p'' \<mapsto> [''selection.json'' \<mapsto> Bytes ''old'']] ''p''
          (Some (Dir [(''b.PNG'', File (Bytes ''bb''))]))
          [\<lparr>original_file = ''b.PNG'', color = Some ''red''\<rparr>] ''me''))) ''p''
       = Some (Bytes ''old'')
   \<and> temp_file (snd (snd (save_selection_try (no_faults\<lparr>replace_raises := True\<rparr>)
          ''t'' [''p'' \<mapsto> [''selection.json'' \<mapsto> Bytes ''old'']] ''p''
          (Some (Dir [(''b.PNG'', File (Bytes ''bb''))]))
          [\<lparr>original_file = ''b.PNG'', color = Some ''red''\<rparr>] ''me''))) ''p''
       = Some (Json \<lparr>product_name = ''p'', completed = True, selected_by = ''me'',
            timestamp = ''t'',
            images = [\<lparr>meta_original_file = ''b.PNG'', saved_file = ''ref_1_red.png'',
                         meta_color = ''red''\<rparr>]\<rparr>)"
proof -
  let ?src = "Some (Dir [(''b.PNG'', File (Bytes ''bb'')), (''a.jpg'', File (Bytes ''aa''))])"
  let ?sel = "[\<lparr>original_file = ''b.PNG'', color = Some ''red''\<rparr>,
           \<lparr>original_file = ''a.jpg'', color = None\<rparr>]"
  let ?old = "[''p'' \<mapsto> [''selection.json'' \<mapsto> Bytes ''old'']]"
  let ?a = "save_selection no_faults ''t'' Map.empty ''p'' ?src ?sel ''me''"
  let ?b = "save_selection (no_faults\<lparr>copy_outcome := (\<lambda>i. if i = 2 then Io_raises None else Io_ok)\<rparr>)
          ''t'' ?old ''p'' ?src ?sel ''me''"
  let ?c = "save_selection_try (no_faults\<lparr>replace_raises := True\<rparr>)
          ''t'' ?old ''p'' (Some (Dir [(''b.PNG'', File (Bytes ''bb''))]))
          [\<lparr>original_file = ''b.PNG'', color = Some ''red''\<rparr>] ''me''"
  let ?d = "save_selection (no_faults\<lparr>replace_raises := True\<rparr>)
          ''t'' ?old ''p'' (Some (Dir [(''b.PNG'', File (Bytes ''bb''))]))
          [\<lparr>original_file = ''b.PNG'', color = Some ''red''\<rparr>] ''me''"
  have a: "fst ?a"
    by code_simp
  have b: "\<not> fst ?b"
    by code_simp
  have c: "fst ?c = Inl OSError_replace"
    by code_simp
  have old: "selection_file ?old ''p'' = Some (Bytes ''old'')"
    by (simp add: selection_file_def)
  have ms: "map (\<lambda>(i, img).
                \<lparr>meta_original_file = original_file img,
                 saved_file = new_filename i (color_or_unknown (color img))
                                (lower (suffix (original_file img))),
                 meta_color = color_or_unknown (color img)\<rparr>)
              (zip [1..<1 + length ?sel] ?sel)
            = [\<lparr>meta_original_file = ''b.PNG'', saved_file = ''ref_1_red.png'',
                         meta_color = ''red''\<rparr>,
                      \<lparr>meta_original_file = ''a.jpg'', saved_file = ''ref_2_unknown.jpg'',
                         meta_color = ''unknown''\<rparr>]"
    by code_simp
  have ms1: "map (\<lambda>(i, img).
                \<lparr>meta_original_file = original_file img,
                 saved_file = new_filename i (color_or_unknown (color img))
                                (lower (suffix (original_file img))),
                 meta_color = color_or_unknown (color img)\<rparr>)
              (zip [1..<1 + length [\<lparr>original_file = ''b.PNG'', color = Some ''red''\<rparr>]]
                 [\<lparr>original_file = ''b.PNG'', color = Some ''red''\<rparr>])
            = [\<lparr>meta_original_file = ''b.PNG'', saved_file = ''ref_1_red.png'',
                         meta_color = ''red''\<rparr>]"
    by code_simp
  have A: "?a = (fst ?a, fst (snd ?a), snd (snd ?a))"
    by simp
  have B: "?b = (fst ?b, fst (snd ?b), snd (snd ?b))"
    by simp
  have C: "?c = (Inl OSError_replace, fst (snd ?c), snd (snd ?c))"
    using c by (metis prod.collapse)
  have D: "?d = (fst ?d, fst (snd ?d), snd (snd ?d))"
    by simp
  note ta = save_selection_metadata_atomic[OF A]
  note tb = save_selection_metadata_atomic[OF B]
  have tc: "selection_file (snd (snd ?c)) ''p'' = selection_file ?old ''p''
          \<and> temp_file (snd (snd ?c)) ''p'' = Some (Json \<lparr>product_name = ''p'', completed = True, selected_by = ''me'',
            timestamp = ''t'',
            images = [\<lparr>meta_original_file = ''b.PNG'', saved_file = ''ref_1_red.png'',
                         meta_color = ''red''\<rparr>]\<rparr>)"
    using save_selection_metadata_atomic[OF D] C
    unfolding ms1 by blast
  from ta a have "selection_file (snd (snd ?a)) ''p''
       = Some (Json \<lparr>product_name = ''p'', completed = True, selected_by = ''me'',
            timestamp = ''t'',
            images = [\<lparr>meta_original_file = ''b.PNG'', saved_file = ''ref_1_red.png'',
                         meta_color = ''red''\<rparr>,
                      \<lparr>meta_original_file = ''a.jpg'', saved_file = ''ref_2_unknown.jpg'',
                         meta_color = ''unknown''\<rparr>]\<rparr>)"
    unfolding ms by blast
  moreover from tb b have "selection_file (snd (snd ?b)) ''p'' = selection_file ?old ''p''"
    by blast
  ultimately show ?thesis
    using a b c tc old by simp
qed

lemma missing_files_Inr:
  "missing_files F src sel = Inr ms
   \<Longrightarrow> ms = filter (\<lambda>n. source_lookup src n = None) (map original_file sel)"
  by (induction sel arbitrary: ms) (auto split: if_splits sum.splits)

lemma missing_files_no_raise:
  "(\<forall>img\<in>set sel. \<not> stat_raises F (original_file img))
   \<Longrightarrow> missing_files F src sel
         = Inr (filter (\<lambda>n. source_lookup src n = None) (map original_file sel))"
  by (induction sel) auto

lemma missing_files_Nil:
  "missing_files F src sel = Inr []
   \<Longrightarrow> \<forall>img\<in>set sel. \<not> stat_raises F (original_file img)
                    \<and> source_lookup src (original_file img) \<noteq> None"
  by (induction sel) (auto split: if_splits sum.splits)

text \<open>
  C2, as amended. When a referenced source file does not exist, the save returns \<open>False\<close>,
  copies nothing and writes no metadata: every other product's directory is untouched and
  this product's directory is as before, except that it has been created, empty, when it
  did not exist. Unless \<open>mkdir\<close> raises, the directory exists afterwards; unless
  \<open>mkdir\<close> or an existence check raises, the one message is the missing-source error
  with the number of missing names and the first three of them.
\<close>

theorem save_selection_missing_source:
  assumes "\<exists>img\<in>set sel. source_lookup src (original_file img) = None"
    and "save_selection F now OUT p src sel user = (ok, msgs, OUT')"
  shows "\<not> ok
       \<and> (\<forall>q. q \<noteq> p \<longrightarrow> OUT' q = OUT q)
       \<and> (OUT' p = OUT p \<or> (OUT p = None \<and> OUT' p = Some Map.empty))
       \<and> (\<not> mkdir_raises F \<longrightarrow> OUT' p \<noteq> None)
       \<and> (\<not> mkdir_raises F \<and> (\<forall>img\<in>set sel. \<not> stat_raises F (original_file img))
            \<longrightarrow> OUT' p \<noteq> None
              \<and> msgs = [Error_missing_sources
                          (length (filter (\<lambda>n. source_lookup src n = None) (map original_file sel)))
                          (take 3 (filter (\<lambda>n. source_lookup src n = None) (map original_file sel)))])"
proof (cases "mkdir_raises F")
  case True
  with assms(2) show ?thesis
    by (auto simp: save_selection_def save_selection_try_def)
next
  case nomk: False
  let ?d0 = "case OUT p of None \<Rightarrow> Map.empty | Some d \<Rightarrow> d"
  let ?missing = "filter (\<lambda>n. source_lookup src n = None) (map original_file sel)"
  have ne: "?missing \<noteq> []"
    using assms(1) by (auto simp: filter_empty_conv)
  have d0: "(OUT(p \<mapsto> ?d0)) p = OUT p \<or> (OUT p = None \<and> (OUT(p \<mapsto> ?d0)) p = Some Map.empty)"
    by (cases "OUT p") auto
  show ?thesis
  proof (cases "missing_files F src sel")
    case (Inl e)
    then have "\<not> (\<forall>img\<in>set sel. \<not> stat_raises F (original_file img))"
      using missing_files_no_raise[of sel F src] by auto
    moreover from assms(2) nomk Inl have "\<not> ok" and "OUT' = OUT(p \<mapsto> ?d0)"
      by (auto simp: save_selection_def save_selection_try_def Let_def)
    ultimately show ?thesis
      using d0 by auto
  next
    case (Inr ms)
    then have ms: "ms = ?missing"
      by (rule missing_files_Inr)
    from assms(2) nomk Inr ms ne have "\<not> ok" and "OUT' = OUT(p \<mapsto> ?d0)"
      and "msgs = [Error_missing_sources (length ?missing) (take 3 ?missing)]"
      by (auto simp: save_selection_def save_selection_try_def Let_def)
    then show ?thesis
      using d0 by auto
  qed
qed

theorem save_selection_missing_source_witness:
  "\<not> fst (save_selection no_faults ''t'' Map.empty ''p''
          (Some (Dir [(''a.jpg'', File (Bytes ''aa''))]))
          [\<lparr>original_file = ''a.jpg'', color = Some ''red''\<rparr>,
           \<lparr>original_file = ''gone.png'', color = None\<rparr>] ''me'')
   \<and> fst (snd (save_selection no_faults ''t'' Map.empty ''p''
          (Some (Dir [(''a.jpg'', File (Bytes ''aa''))]))
          [\<lparr>original_file = ''a.jpg'', color = Some ''red''\<rparr>,
           \<lparr>original_file = ''gone.png'', color = None\<rparr>] ''me''))
       = [Error_missing_sources 1 [''gone.png'']]
   \<and> snd (snd (save_selection no_faults ''t'' Map.empty ''p''
          (Some (Dir [(''a.jpg'', File (Bytes ''aa''))]))
          [\<lparr>original_file = ''a.jpg'', color = Some ''red''\<rparr>,
           \<lparr>original_file = ''gone.png'', color = None\<rparr>] ''me'')) ''p'' = Some Map.empty"
proof -
  let ?src = "Some (Dir [(''a.jpg'', File (Bytes ''aa''))])"
  let ?sel = "[\<lparr>original_file = ''a.jpg'', color = Some ''red''\<rparr>,
           \<lparr>original_file = ''gone.png'', color = None\<rparr>]"
  let ?a = "save_selection no_faults ''t'' Map.empty ''p'' ?src ?sel ''me''"
  have gone: "\<exists>img\<in>set ?sel. source_lookup ?src (original_file img) = None"
    by (simp add: source_lookup_def)
  have A: "?a = (fst ?a, fst (snd ?a), snd (snd ?a))"
    by simp
  have nf: "\<not> mkdir_raises no_faults \<and> (\<forall>img\<in>set ?sel. \<not> stat_raises no_faults (original_file img))"
    by (simp add: no_faults_def)
  have fl: "filter (\<lambda>n. source_lookup ?src n = None) (map original_file ?sel) = [''gone.png'']"
    by (simp add: source_lookup_def)
  from save_selection_missing_source[OF gone A] nf show ?thesis
    unfolding fl by auto
qed

text \<open>
  C2 as stated fails: with the source file missing and no directory for the product yet,
  the failed save leaves the product's directory created.
\<close>

theorem save_selection_missing_source_creates_directory:
  "\<not> fst (save_selection no_faults ''t'' Map.empty ''p'' (Some (Dir []))
          [\<lparr>original_file = ''a.png'', color = Some ''red''\<rparr>] ''me'')
   \<and> (Map.empty :: out_tree) ''p'' = None
   \<and> snd (snd (save_selection no_faults ''t'' Map.empty ''p'' (Some (Dir []))
          [\<lparr>original_file = ''a.png'', color = Some ''red''\<rparr>] ''me'')) ''p'' \<noteq> None"
  by (simp add: save_selection_def save_selection_try_def no_faults_def source_lookup_def)

text \<open>
  C3, as amended. After a save that returns \<open>True\<close>, the selection at position \<open>k\<close>
  (counted from 0) is a file of the source folder and its bytes are in the product's
  directory under \<open>ref_\<close>, the decimal \<open>k + 1\<close>, \<open>_\<close>, the colour (\<open>unknown\<close> when the
  colour is absent or empty) and the lowercased extension of the original name.
\<close>

theorem save_selection_file_names:
  assumes "save_selection F now OUT p src sel user = (True, msgs, OUT')"
    and "k < length sel"
  shows "\<exists>d' c. OUT' p = Some d'
            \<and> source_lookup src (original_file (sel ! k)) = Some (File c)
            \<and> d' (''ref_'' @ str_nat (k + 1) @ ''_''
                     @ (case color (sel ! k) of
                          None \<Rightarrow> ''unknown''
                        | Some s \<Rightarrow> if s = [] then ''unknown'' else s)
                     @ lower (suffix (original_file (sel ! k)))) = Some c"
proof -
  from save_selection_True[OF assms(1)] obtain d1 ms where
    ci: "copy_images F src 1 sel (case OUT p of None \<Rightarrow> Map.empty | Some d \<Rightarrow> d) [] = (Inr ms, d1)"
    and out: "OUT' p = Some ((d1(''.selection.json.tmp'' := None))(''selection.json'' \<mapsto>
                     Json \<lparr>product_name = p, completed = True, selected_by = user, timestamp = now,
                           images = ms\<rparr>))"
    by auto
  let ?new = "new_filename (1 + k) (color_or_unknown (color (sel ! k)))
                   (lower (suffix (original_file (sel ! k))))"
  from copy_images_copied[OF ci assms(2)] obtain c where
    c: "source_lookup src (original_file (sel ! k)) = Some (File c)" and d1: "d1 ?new = Some c"
    by auto
  have "?new \<noteq> ''selection.json''" and "?new \<noteq> ''.selection.json.tmp''"
    by (rule new_filename_not_metadata)+
  with d1 out c show ?thesis
    by (simp add: new_filename_def color_or_unknown_def)
qed

theorem save_selection_file_names_witness:
  "fst (save_selection no_faults ''t'' Map.empty ''p''
          (Some (Dir [(''b.png'', File (Bytes ''bb'')), (''a.jpg'', File (Bytes ''aa''))]))
          [\<lparr>original_file = ''b.png'', color = Some ''red''\<rparr>,
           \<lparr>original_file = ''a.jpg'', color = Some []\<rparr>] ''me'')
   \<and> (1::nat) < length [\<lparr>original_file = ''b.png'', color = Some ''red''\<rparr>,
                         \<lparr>original_file = ''a.jpg'', color = Some []\<rparr>]
   \<and> the (snd (snd (save_selection no_faults ''t'' Map.empty ''p''
          (Some (Dir [(''b.png'', File (Bytes ''bb'')), (''a.jpg'', File (Bytes ''aa''))]))
          [\<lparr>original_file = ''b.png'', color = Some ''red''\<rparr>,
           \<lparr>original_file = ''a.jpg'', color = Some []\<rparr>] ''me'')) ''p'') ''ref_2_unknown.jpg''
       = Some (Bytes ''aa'')"
proof -
  let ?src = "Some (Dir [(''b.png'', File (Bytes ''bb'')), (''a.jpg'', File (Bytes ''aa''))])"
  let ?sel = "[\<lparr>original_file = ''b.png'', color = Some ''red''\<rparr>,
           \<lparr>original_file = ''a.jpg'', color = Some []\<rparr>]"
  let ?a = "save_selection no_faults ''t'' Map.empty ''p'' ?src ?sel ''me''"
  have a: "fst ?a"
    by code_simp
  then have A: "?a = (True, fst (snd ?a), snd (snd ?a))"
    by (simp add: prod_eq_iff)
  have k: "(1::nat) < length ?sel"
    by simp
  have nm: "''ref_'' @ str_nat (1 + 1) @ ''_''
              @ (case color (?sel ! 1) of
                   None \<Rightarrow> ''unknown''
                 | Some s \<Rightarrow> if s = [] then ''unknown'' else s)
              @ lower (suffix (original_file (?sel ! 1))) = ''ref_2_unknown.jpg''"
    by code_simp
  have lk: "source_lookup ?src (original_file (?sel ! 1)) = Some (File (Bytes ''aa''))"
    by (simp add: source_lookup_def)
  from save_selection_file_names[OF A k] obtain d' c where
    d': "snd (snd ?a) ''p'' = Some d'"
    and c: "Some (File (Bytes ''aa'')) = Some (File c)"
    and cp: "d' ''ref_2_unknown.jpg'' = Some c"
    unfolding nm lk by blast
  from c have "c = Bytes ''aa''"
    by simp
  with d' cp have "the (snd (snd ?a) ''p'') ''ref_2_unknown.jpg'' = Some (Bytes ''aa'')"
    by simp
  with a k show ?thesis
    by (simp only: simp_thms)
qed

text \<open>
  C3 as stated fails: \<open>b.PNG\<close> has the extension \<open>.PNG\<close>, and after a successful save
  there is no \<open>ref_1_red.PNG\<close>; the copy is \<open>ref_1_red.png\<close>.
\<close>

theorem save_selection_extension_lowercased:
  "fst (save_selection no_faults ''t'' Map.empty ''p''
          (Some (Dir [(''b.PNG'', File (Bytes ''bb''))]))
          [\<lparr>original_file = ''b.PNG'', color = Some ''red''\<rparr>] ''me'')
   \<and> suffix ''b.PNG'' = ''.PNG''
   \<and> the (snd (snd (save_selection no_faults ''t'' Map.empty ''p''
          (Some (Dir [(''b.PNG'', File (Bytes ''bb''))]))
          [\<lparr>original_file = ''b.PNG'', color = Some ''red''\<rparr>] ''me'')) ''p'') ''ref_1_red.PNG''
       = None
   \<and> the (snd (snd (save_selection no_faults ''t'' Map.empty ''p''
          (Some (Dir [(''b.PNG'', File (Bytes ''bb''))]))
          [\<lparr>original_file = ''b.PNG'', color = Some ''red''\<rparr>] ''me'')) ''p'') ''ref_1_red.png''
       = Some (Bytes ''bb'')"
  by code_simp

lemma copy_images_succeeds:
  "(\<forall>k<length sel. copy_outcome F (idx + k) = Io_ok
        \<and> (\<exists>c. source_lookup src (original_file (sel ! k)) = Some (File c)))
   \<Longrightarrow> \<exists>ms d'. copy_images F src idx sel d metas = (Inr ms, d')"
proof (induction sel arbitrary: idx d metas)
  case Nil
  then show ?case by simp
next
  case (Cons img rest)
  from Cons.prems[rule_format, of 0] obtain c where
    ok: "copy_outcome F idx = Io_ok" and c: "source_lookup src (original_file img) = Some (File c)"
    by auto
  have "\<forall>k<length rest. copy_outcome F (Suc idx + k) = Io_ok
          \<and> (\<exists>c. source_lookup src (original_file (rest ! k)) = Some (File c))"
  proof (intro allI impI)
    fix k assume "k < length rest"
    then have "Suc k < length (img # rest)" by simp
    from Cons.prems[rule_format, OF this]
    show "copy_outcome F (Suc idx + k) = Io_ok
          \<and> (\<exists>c. source_lookup src (original_file (rest ! k)) = Some (File c))"
      by simp
  qed
  from Cons.IH[OF this] show ?case
    using ok c by (simp add: Let_def)
qed

lemma save_selection_succeeds:
  assumes "\<not> mkdir_raises F"
    and "\<forall>img\<in>set sel. \<not> stat_raises F (original_file img)"
    and "\<forall>k<length sel. copy_outcome F (k + 1) = Io_ok
            \<and> (\<exists>c. source_lookup src (original_file (sel ! k)) = Some (File c))"
    and "write_outcome F = Io_ok"
    and "\<not> replace_raises F"
  shows "fst (save_selection F now OUT p src sel user)"
proof -
  let ?d0 = "case OUT p of None \<Rightarrow> Map.empty | Some d \<Rightarrow> d"
  have "\<forall>n\<in>set (map original_file sel). source_lookup src n \<noteq> None"
  proof
    fix n assume "n \<in> set (map original_file sel)"
    then obtain k where "k < length sel" and "n = original_file (sel ! k)"
      by (auto simp: in_set_conv_nth)
    with assms(3) show "source_lookup src n \<noteq> None"
      by auto
  qed
  then have "filter (\<lambda>n. source_lookup src n = None) (map original_file sel) = []"
    by (simp add: filter_empty_conv)
  then have miss: "missing_files F src sel = Inr []"
    using missing_files_no_raise[OF assms(2), of src] by simp
  have "\<forall>k<length sel. copy_outcome F (1 + k) = Io_ok
            \<and> (\<exists>c. source_lookup src (original_file (sel ! k)) = Some (File c))"
    using assms(3) by simp
  from copy_images_succeeds[OF this] obtain ms d1 where
    ci: "copy_images F src 1 sel ?d0 [] = (Inr ms, d1)"
    by blast
  show ?thesis
    using assms(1,4,5) miss ci
    by (simp add: save_selection_def save_selection_try_def publish_metadata_def Let_def)
qed

text \<open>
  C8. After a save that returns \<open>True\<close> the product is completed; after a delete whose
  \<open>rmtree\<close> returned (and in the case where there was nothing to delete) it is not.
\<close>

theorem completed_after_save_and_delete:
  "(fst (save_selection F now OUT p src sel user)
      \<longrightarrow> is_product_completed (snd (snd (save_selection F now OUT p src sel user))) p)
   \<and> (fst (delete_current_selection read_raises rmtree_stops OUT p) = Deleted
        \<or> fst (delete_current_selection read_raises rmtree_stops OUT p) = Not_completed
      \<longrightarrow> \<not> is_product_completed (snd (delete_current_selection read_raises rmtree_stops OUT p)) p)"
proof (intro conjI impI)
  let ?a = "save_selection F now OUT p src sel user"
  assume "fst ?a"
  then have "?a = (True, fst (snd ?a), snd (snd ?a))"
    by (simp add: prod_eq_iff)
  from save_selection_True[OF this] show "is_product_completed (snd (snd ?a)) p"
    by (auto simp: is_product_completed_def)
next
  assume "fst (delete_current_selection read_raises rmtree_stops OUT p) = Deleted
        \<or> fst (delete_current_selection read_raises rmtree_stops OUT p) = Not_completed"
  then show "\<not> is_product_completed (snd (delete_current_selection read_raises rmtree_stops OUT p)) p"
    by (auto simp: delete_current_selection_def is_product_completed_def
             split: if_splits option.splits)
qed

theorem completed_after_save_and_delete_witness:
  "fst (save_selection no_faults ''t'' Map.empty ''p''
          (Some (Dir [(''a.jpg'', File (Bytes ''aa''))]))
          [\<lparr>original_file = ''a.jpg'', color = Some ''red''\<rparr>] ''me'')
   \<and> is_product_completed (snd (snd (save_selection no_faults ''t'' Map.empty ''p''
          (Some (Dir [(''a.jpg'', File (Bytes ''aa''))]))
          [\<lparr>original_file = ''a.jpg'', color = Some ''red''\<rparr>] ''me''))) ''p''
   \<and> fst (delete_current_selection False None
          (snd (snd (save_selection no_faults ''t'' Map.empty ''p''
             (Some (Dir [(''a.jpg'', File (Bytes ''aa''))]))
             [\<lparr>original_file = ''a.jpg'', color = Some ''red''\<rparr>] ''me''))) ''p'') = Deleted
   \<and> \<not> is_product_completed (snd (delete_current_selection False None
          (snd (snd (save_selection no_faults ''t'' Map.empty ''p''
             (Some (Dir [(''a.jpg'', File (Bytes ''aa''))]))
             [\<lparr>original_file = ''a.jpg'', color = Some ''red''\<rparr>] ''me''))) ''p'')) ''p''"
proof -
  let ?a = "save_selection no_faults ''t'' Map.empty ''p''
          (Some (Dir [(''a.jpg'', File (Bytes ''aa''))]))
          [\<lparr>original_file = ''a.jpg'', color = Some ''red''\<rparr>] ''me''"
  have a: "fst ?a"
    by code_simp
  note s = completed_after_save_and_delete[of no_faults "''t''" Map.empty "''p''"
      "Some (Dir [(''a.jpg'', File (Bytes ''aa''))])"
      "[\<lparr>original_file = ''a.jpg'', color = Some ''red''\<rparr>]" "''me''" False None]
  from s a have cmp: "is_product_completed (snd (snd ?a)) ''p''"
    by blast
  then have d: "fst (delete_current_selection False None (snd (snd ?a)) ''p'') = Deleted"
    by (simp add: delete_current_selection_def)
  note t = completed_after_save_and_delete[of no_faults "''t''" "snd (snd ?a)" "''p''"
      "Some (Dir [(''a.jpg'', File (Bytes ''aa''))])"
      "[\<lparr>original_file = ''a.jpg'', color = Some ''red''\<rparr>]" "''me''" False None]
  from t d have "\<not> is_product_completed (snd (delete_current_selection False None (snd (snd ?a)) ''p'')) ''p''"
    by blast
  with a cmp d show ?thesis
    by (simp only: simp_thms)
qed

text \<open>
  C10. An exception raised inside the \<open>try\<close> block, at whichever step, reaches the handler:
  the function reports it and returns \<open>False\<close>, and a value returned inside the block is
  returned unchanged, so the caller always gets a boolean. The function returns \<open>True\<close>
  exactly when \<open>mkdir\<close>, every existence check, every copy, the write of the temporary
  file and the rename went through with every selection being a file of the source
  folder; then every copy is in the product's directory, the metadata file exists and
  the temporary file is gone.
\<close>

theorem save_selection_catches_exceptions:
  "(\<forall>e m T. save_selection_try F now OUT p src sel user = (Inl e, m, T)
        \<longrightarrow> save_selection F now OUT p src sel user = (False, m @ [Error_saving e], T))
   \<and> (\<forall>b m T. save_selection_try F now OUT p src sel user = (Inr b, m, T)
        \<longrightarrow> save_selection F now OUT p src sel user = (b, m, T))
   \<and> (fst (save_selection F now OUT p src sel user)
        \<longleftrightarrow> \<not> mkdir_raises F
          \<and> (\<forall>img\<in>set sel. \<not> stat_raises F (original_file img))
          \<and> (\<forall>k<length sel. copy_outcome F (k + 1) = Io_ok
                 \<and> (\<exists>c. source_lookup src (original_file (sel ! k)) = Some (File c)))
          \<and> write_outcome F = Io_ok
          \<and> \<not> replace_raises F)
   \<and> (fst (save_selection F now OUT p src sel user)
        \<longrightarrow> (\<forall>k<length sel. \<exists>d' c.
                snd (snd (save_selection F now OUT p src sel user)) p = Some d'
              \<and> source_lookup src (original_file (sel ! k)) = Some (File c)
              \<and> d' (new_filename (k + 1) (color_or_unknown (color (sel ! k)))
                      (lower (suffix (original_file (sel ! k))))) = Some c)
          \<and> selection_file (snd (snd (save_selection F now OUT p src sel user))) p \<noteq> None
          \<and> temp_file (snd (snd (save_selection F now OUT p src sel user))) p = None)"
proof (intro conjI)
  show "\<forall>e m T. save_selection_try F now OUT p src sel user = (Inl e, m, T)
        \<longrightarrow> save_selection F now OUT p src sel user = (False, m @ [Error_saving e], T)"
    by (simp add: save_selection_def)
  show "\<forall>b m T. save_selection_try F now OUT p src sel user = (Inr b, m, T)
        \<longrightarrow> save_selection F now OUT p src sel user = (b, m, T)"
    by (simp add: save_selection_def)
  let ?a = "save_selection F now OUT p src sel user"
  let ?d0 = "case OUT p of None \<Rightarrow> Map.empty | Some d \<Rightarrow> d"
  have inv: "\<not> mkdir_raises F \<and> write_outcome F = Io_ok \<and> \<not> replace_raises F
       \<and> missing_files F src sel = Inr []
       \<and> (\<exists>d1 ms. copy_images F src 1 sel ?d0 [] = (Inr ms, d1)
              \<and> snd (snd ?a) = OUT(p \<mapsto> (d1(''.selection.json.tmp'' := None))(''selection.json'' \<mapsto>
                     Json \<lparr>product_name = p, completed = True, selected_by = user, timestamp = now,
                           images = ms\<rparr>)))"
    if "fst ?a"
  proof -
    from that have "?a = (True, fst (snd ?a), snd (snd ?a))"
      by (simp add: prod_eq_iff)
    from save_selection_True[OF this] show ?thesis
      by blast
  qed
  show "fst ?a
        \<longleftrightarrow> \<not> mkdir_raises F
          \<and> (\<forall>img\<in>set sel. \<not> stat_raises F (original_file img))
          \<and> (\<forall>k<length sel. copy_outcome F (k + 1) = Io_ok
                 \<and> (\<exists>c. source_lookup src (original_file (sel ! k)) = Some (File c)))
          \<and> write_outcome F = Io_ok
          \<and> \<not> replace_raises F"
  proof
    assume ok: "fst ?a"
    from inv[OF ok] obtain d1 ms where
      ci: "copy_images F src 1 sel ?d0 [] = (Inr ms, d1)"
      by blast
    have "\<forall>k<length sel. copy_outcome F (k + 1) = Io_ok
                 \<and> (\<exists>c. source_lookup src (original_file (sel ! k)) = Some (File c))"
    proof (intro allI impI)
      fix k assume "k < length sel"
      from copy_images_copied[OF ci this]
      show "copy_outcome F (k + 1) = Io_ok
                 \<and> (\<exists>c. source_lookup src (original_file (sel ! k)) = Some (File c))"
        by auto
    qed
    moreover have "\<forall>img\<in>set sel. \<not> stat_raises F (original_file img)"
      using inv[OF ok] missing_files_Nil[of F src sel] by blast
    ultimately show "\<not> mkdir_raises F
          \<and> (\<forall>img\<in>set sel. \<not> stat_raises F (original_file img))
          \<and> (\<forall>k<length sel. copy_outcome F (k + 1) = Io_ok
                 \<and> (\<exists>c. source_lookup src (original_file (sel ! k)) = Some (File c)))
          \<and> write_outcome F = Io_ok
          \<and> \<not> replace_raises F"
      using inv[OF ok] by blast
  next
    assume "\<not> mkdir_raises F
          \<and> (\<forall>img\<in>set sel. \<not> stat_raises F (original_file img))
          \<and> (\<forall>k<length sel. copy_outcome F (k + 1) = Io_ok
                 \<and> (\<exists>c. source_lookup src (original_file (sel ! k)) = Some (File c)))
          \<and> write_outcome F = Io_ok
          \<and> \<not> replace_raises F"
    then show "fst ?a"
      using save_selection_succeeds[of F sel src now OUT p user] by blast
  qed
  show "fst ?a
        \<longrightarrow> (\<forall>k<length sel. \<exists>d' c.
                snd (snd ?a) p = Some d'
              \<and> source_lookup src (original_file (sel ! k)) = Some (File c)
              \<and> d' (new_filename (k + 1) (color_or_unknown (color (sel ! k)))
                      (lower (suffix (original_file (sel ! k))))) = Some c)
          \<and> selection_file (snd (snd ?a)) p \<noteq> None
          \<and> temp_file (snd (snd ?a)) p = None"
  proof (intro impI conjI allI)
    assume ok: "fst ?a"
    from inv[OF ok] obtain d1 ms where
      ci: "copy_images F src 1 sel ?d0 [] = (Inr ms, d1)"
      and out: "snd (snd ?a) = OUT(p \<mapsto> (d1(''.selection.json.tmp'' := None))(''selection.json'' \<mapsto>
                     Json \<lparr>product_name = p, completed = True, selected_by = user, timestamp = now,
                           images = ms\<rparr>))"
      by blast
    show "selection_file (snd (snd ?a)) p \<noteq> None"
      by (simp add: out selection_file_def)
    show "temp_file (snd (snd ?a)) p = None"
      by (simp add: out temp_file_def)
    fix k assume k: "k < length sel"
    let ?new = "new_filename (k + 1) (color_or_unknown (color (sel ! k)))
                      (lower (suffix (original_file (sel ! k))))"
    from copy_images_copied[OF ci k] obtain c where
      c: "source_lookup src (original_file (sel ! k)) = Some (File c)" and d1: "d1 ?new = Some c"
      by auto
    have "?new \<noteq> ''selection.json''" and "?new \<noteq> ''.selection.json.tmp''"
      by (rule new_filename_not_metadata)+
    with d1 c show "\<exists>d' c. snd (snd ?a) p = Some d'
              \<and> source_lookup src (original_file (sel ! k)) = Some (File c)
              \<and> d' ?new = Some c"
      by (simp add: out)
  qed
qed

theorem save_selection_catches_exceptions_witness:
  "save_selection (no_faults\<lparr>copy_outcome := (\<lambda>i. if i = 2 then Io_raises None else Io_ok)\<rparr>)
       ''t'' Map.empty ''p''
       (Some (Dir [(''b.png'', File (Bytes ''bb'')), (''a.jpg'', File (Bytes ''aa''))]))
       [\<lparr>original_file = ''b.png'', color = Some ''red''\<rparr>,
        \<lparr>original_file = ''a.jpg'', color = None\<rparr>] ''me''
     = (False, [Error_saving (OSError_copy 2)],
        snd (snd (save_selection_try
          (no_faults\<lparr>copy_outcome := (\<lambda>i. if i = 2 then Io_raises None else Io_ok)\<rparr>)
          ''t'' Map.empty ''p''
          (Some (Dir [(''b.png'', File (Bytes ''bb'')), (''a.jpg'', File (Bytes ''aa''))]))
          [\<lparr>original_file = ''b.png'', color = Some ''red''\<rparr>,
           \<lparr>original_file = ''a.jpg'', color = None\<rparr>] ''me'')))
   \<and> fst (save_selection no_faults ''t'' Map.empty ''p''
          (Some (Dir [(''b.png'', File (Bytes ''bb'')), (''a.jpg'', File (Bytes ''aa''))]))
          [\<lparr>original_file = ''b.png'', color = Some ''red''\<rparr>,
           \<lparr>original_file = ''a.jpg'', color = None\<rparr>] ''me'')
   \<and> selection_file (snd (snd (save_selection no_faults ''t'' Map.empty ''p''
          (Some (Dir [(''b.png'', File (Bytes ''bb'')), (''a.jpg'', File (Bytes ''aa''))]))
          [\<lparr>original_file = ''b.png'', color = Some ''red''\<rparr>,
           \<lparr>original_file = ''a.jpg'', color = None\<rparr>] ''me''))) ''p'' \<noteq> None
   \<and> temp_file (snd (snd (save_selection no_faults ''t'' Map.empty ''p''
          (Some (Dir [(''b.png'', File (Bytes ''bb'')), (''a.jpg'', File (Bytes ''aa''))]))
          [\<lparr>original_file = ''b.png'', color = Some ''red''\<rparr>,
           \<lparr>original_file = ''a.jpg'', color = None\<rparr>] ''me''))) ''p'' = None
   \<and> \<not> mkdir_raises no_faults
   \<and> write_outcome no_faults = Io_ok
   \<and> \<not> replace_raises no_faults"
proof -
  let ?src = "Some (Dir [(''b.png'', File (Bytes ''bb'')), (''a.jpg'', File (Bytes ''aa''))])"
  let ?sel = "[\<lparr>original_file = ''b.png'', color = Some ''red''\<rparr>,
           \<lparr>original_file = ''a.jpg'', color = None\<rparr>]"
  let ?F = "no_faults\<lparr>copy_outcome := (\<lambda>i. if i = 2 then Io_raises None else Io_ok)\<rparr>"
  let ?t = "save_selection_try ?F ''t'' Map.empty ''p'' ?src ?sel ''me''"
  let ?a = "save_selection no_faults ''t'' Map.empty ''p'' ?src ?sel ''me''"
  have t1: "fst ?t = Inl (OSError_copy 2)"
    by code_simp
  have t2: "fst (snd ?t) = []"
    by code_simp
  have T: "?t = (Inl (OSError_copy 2), [], snd (snd ?t))"
    using t1 t2 by (simp add: prod_eq_iff)
  note caught = save_selection_catches_exceptions[of ?F "''t''" Map.empty "''p''" ?src ?sel "''me''"]
  from caught T have c: "save_selection ?F ''t'' Map.empty ''p'' ?src ?sel ''me''
      = (False, [] @ [Error_saving (OSError_copy 2)], snd (snd ?t))"
    by blast
  have nf: "\<not> mkdir_raises no_faults"
    "\<forall>img\<in>set ?sel. \<not> stat_raises no_faults (original_file img)"
    "\<forall>k<length ?sel. copy_outcome no_faults (k + 1) = Io_ok
         \<and> (\<exists>c. source_lookup ?src (original_file (?sel ! k)) = Some (File c))"
    "write_outcome no_faults = Io_ok" "\<not> replace_raises no_faults"
    by (simp_all add: no_faults_def source_lookup_def less_Suc_eq)
  note ok = save_selection_catches_exceptions[of no_faults "''t''" Map.empty "''p''" ?src ?sel "''me''"]
  from ok nf have a: "fst ?a"
    by blast
  with ok have "selection_file (snd (snd ?a)) ''p'' \<noteq> None" and "temp_file (snd (snd ?a)) ''p'' = None"
    by blast+
  with a c nf show ?thesis
    by simp
qed

subsection \<open>The order of the collected selections\<close>

lemma reset_keys:
  "distinct (map fst d @ map name imgs)
   \<Longrightarrow> map fst (foldl (\<lambda>d img. dict_set (name img) v d) d imgs) = map fst d @ map name imgs"
proof (induction imgs arbitrary: d)
  case Nil
  then show ?case by simp
next
  case (Cons img rest)
  then have new: "name img \<notin> fst ` set d"
    by auto
  then have keys: "map fst (dict_set (name img) v d) = map fst d @ [name img]"
    by (rule keys_dict_set_new)
  have "distinct (map fst (dict_set (name img) v d) @ map name rest)"
    using Cons.prems by (simp add: keys)
  from Cons.IH[OF this] show ?case
    by (simp add: keys)
qed

lemma image_cell_keys:
  "image_name \<in> fst ` set sels
   \<Longrightarrow> map fst (image_cell image_name is_selected selected_color sels) = map fst sels"
  by (simp add: image_cell_def Let_def keys_dict_modify)

lemma image_cells_keys:
  "\<forall>ev\<in>set events. fst ev \<in> fst ` set sels
   \<Longrightarrow> map fst (foldl (\<lambda>s (n, b, c). image_cell n b c s) sels events) = map fst sels"
proof (induction events arbitrary: sels)
  case Nil
  then show ?case by simp
next
  case (Cons ev rest)
  obtain n b c where ev: "ev = (n, b, c)"
    by (cases ev) auto
  with Cons.prems have "n \<in> fst ` set sels"
    by simp
  then have keys: "map fst (image_cell n b c sels) = map fst sels"
    by (rule image_cell_keys)
  then have "fst ` set (image_cell n b c sels) = fst ` set sels"
    by (metis set_map)
  with Cons.prems have "\<forall>ev\<in>set rest. fst ev \<in> fst ` set (image_cell n b c sels)"
    by simp
  from Cons.IH[OF this] show ?case
    by (simp add: ev keys)
qed

lemma collect_selected_images_keys:
  "distinct (map fst sels)
   \<Longrightarrow> map original_file (collect_selected_images sels)
       = filter (\<lambda>n. case map_of sels n of None \<Rightarrow> False | Some e \<Rightarrow> selected e) (map fst sels)"
proof (induction sels)
  case Nil
  then show ?case by (simp add: collect_selected_images_def)
next
  case (Cons x sels)
  obtain n e where x: "x = (n, e)"
    by (cases x) auto
  have "filter (\<lambda>m. case map_of (x # sels) m of None \<Rightarrow> False | Some e \<Rightarrow> selected e) (map fst sels)
      = filter (\<lambda>m. case map_of sels m of None \<Rightarrow> False | Some e \<Rightarrow> selected e) (map fst sels)"
    using Cons.prems by (intro filter_cong) (auto simp: x)
  moreover have "map original_file (collect_selected_images sels)
      = filter (\<lambda>m. case map_of sels m of None \<Rightarrow> False | Some e \<Rightarrow> selected e) (map fst sels)"
    using Cons by simp
  ultimately show ?case
    by (simp add: collect_selected_images_def x)
qed

text \<open>
  C5. Once the selections of a product have been reset from the image listing, whatever
  cells of listed images are then ticked, unticked or recoloured, and in whatever order,
  the collected list names exactly the listed images whose entry is selected, in listing
  order. A copy loop that runs through over that list gives the image at position \<open>k\<close>
  of it the number \<open>k + 1\<close> in its \<open>ref_\<close> name.
\<close>

theorem collect_selected_images_listing_order:
  assumes "distinct (map name imgs)"
    and "last_loaded_product st \<noteq> Some product"
    and "\<forall>ev\<in>set events. fst ev \<in> name ` set imgs"
    and "sels = foldl (\<lambda>s (n, b, c). image_cell n b c s)
                  (current_selections (reset_selections_for_product product imgs st)) events"
  shows "map original_file (collect_selected_images sels)
           = filter (\<lambda>n. case map_of sels n of None \<Rightarrow> False | Some e \<Rightarrow> selected e)
               (map name imgs)
       \<and> (\<forall>F src d ms d'.
             copy_images F src 1 (collect_selected_images sels) d [] = (Inr ms, d')
             \<longrightarrow> map meta_original_file ms
                   = filter (\<lambda>n. case map_of sels n of None \<Rightarrow> False | Some e \<Rightarrow> selected e)
                       (map name imgs)
               \<and> (\<forall>k<length ms.
                     saved_file (ms ! k)
                       = new_filename (k + 1) (meta_color (ms ! k))
                           (lower (suffix (meta_original_file (ms ! k))))))"
proof -
  let ?s0 = "current_selections (reset_selections_for_product product imgs st)"
  have "map fst ?s0 = map name imgs"
    using assms(1,2) reset_keys[of "[]" imgs]
    by (simp add: reset_selections_for_product_def)
  moreover from this have "fst ` set ?s0 = name ` set imgs"
    by (metis set_map)
  ultimately have keys: "map fst sels = map name imgs"
    using assms(3,4) image_cells_keys[of events ?s0] by simp
  then have "distinct (map fst sels)"
    using assms(1) by simp
  from collect_selected_images_keys[OF this] keys
  have order: "map original_file (collect_selected_images sels)
           = filter (\<lambda>n. case map_of sels n of None \<Rightarrow> False | Some e \<Rightarrow> selected e)
               (map name imgs)"
    by simp
  have numbering: "map meta_original_file ms = map original_file csel
      \<and> (\<forall>k<length ms. saved_file (ms ! k)
                       = new_filename (k + 1) (meta_color (ms ! k))
                           (lower (suffix (meta_original_file (ms ! k)))))"
    if "copy_images F src 1 csel d [] = (Inr ms, d')" for F src d ms d' csel
  proof -
    from copy_images_metas[OF that]
    have ms: "ms = map (\<lambda>(i, img). image_meta_of i img) (zip [1..<1 + length csel] csel)"
      by simp
    have len: "length ms = length csel"
      by (simp add: ms del: upt_Suc)
    have nth: "ms ! k = image_meta_of (k + 1) (csel ! k)" if "k < length csel" for k
      using that by (simp add: ms del: upt_Suc)
    have "map meta_original_file ms = map original_file csel"
      by (rule nth_equalityI) (simp_all add: len nth image_meta_of_def)
    moreover have "\<forall>k<length ms. saved_file (ms ! k)
                       = new_filename (k + 1) (meta_color (ms ! k))
                           (lower (suffix (meta_original_file (ms ! k))))"
      by (simp add: len nth image_meta_of_def)
    ultimately show ?thesis
      by simp
  qed
  show ?thesis
    using order numbering by metis
qed

theorem collect_selected_images_listing_order_witness:
  "distinct (map name [(''a.png'', File (Bytes ''aa'')), (''b.png'', File (Bytes ''bb''))])
   \<and> map original_file (collect_selected_images (foldl (\<lambda>s (n, b, c). image_cell n b c s)
          (current_selections (reset_selections_for_product ''p''
             [(''a.png'', File (Bytes ''aa'')), (''b.png'', File (Bytes ''bb''))]
             \<lparr>product_folders = [(''p'', Dir [(''a.png'', File (Bytes ''aa'')), (''b.png'', File (Bytes ''bb''))])], current_index = 0, username = ''me'',
            current_selections = [], last_loaded_product = None\<rparr>))
          [(''b.png'', True, ''red''), (''a.png'', True, ''blue'')])) = [''a.png'', ''b.png'']
   \<and> fst (copy_images no_faults (Some (Dir [(''a.png'', File (Bytes ''aa'')), (''b.png'', File (Bytes ''bb''))])) 1
          (collect_selected_images (foldl (\<lambda>s (n, b, c). image_cell n b c s)
          (current_selections (reset_selections_for_product ''p''
             [(''a.png'', File (Bytes ''aa'')), (''b.png'', File (Bytes ''bb''))]
             \<lparr>product_folders = [(''p'', Dir [(''a.png'', File (Bytes ''aa'')), (''b.png'', File (Bytes ''bb''))])], current_index = 0, username = ''me'',
            current_selections = [], last_loaded_product = None\<rparr>))
          [(''b.png'', True, ''red''), (''a.png'', True, ''blue'')])) Map.empty []) = Inr [\<lparr>meta_original_file = ''a.png'', saved_file = ''ref_1_blue.png'', meta_color = ''blue''\<rparr>,
            \<lparr>meta_original_file = ''b.png'', saved_file = ''ref_2_red.png'', meta_color = ''red''\<rparr>]
   \<and> map meta_original_file [\<lparr>meta_original_file = ''a.png'', saved_file = ''ref_1_blue.png'', meta_color = ''blue''\<rparr>,
            \<lparr>meta_original_file = ''b.png'', saved_file = ''ref_2_red.png'', meta_color = ''red''\<rparr>] = [''a.png'', ''b.png'']"
proof -
  let ?imgs = "[(''a.png'', File (Bytes ''aa'')), (''b.png'', File (Bytes ''bb''))]"
  let ?st = "\<lparr>product_folders = [(''p'', Dir [(''a.png'', File (Bytes ''aa'')), (''b.png'', File (Bytes ''bb''))])], current_index = 0, username = ''me'',
            current_selections = [], last_loaded_product = None\<rparr>"
  let ?sels = "(foldl (\<lambda>s (n, b, c). image_cell n b c s)
          (current_selections (reset_selections_for_product ''p''
             [(''a.png'', File (Bytes ''aa'')), (''b.png'', File (Bytes ''bb''))]
             \<lparr>product_folders = [(''p'', Dir [(''a.png'', File (Bytes ''aa'')), (''b.png'', File (Bytes ''bb''))])], current_index = 0, username = ''me'',
            current_selections = [], last_loaded_product = None\<rparr>))
          [(''b.png'', True, ''red''), (''a.png'', True, ''blue'')])"
  let ?ms = "[\<lparr>meta_original_file = ''a.png'', saved_file = ''ref_1_blue.png'', meta_color = ''blue''\<rparr>,
            \<lparr>meta_original_file = ''b.png'', saved_file = ''ref_2_red.png'', meta_color = ''red''\<rparr>]"
  let ?ci = "copy_images no_faults (Some (Dir [(''a.png'', File (Bytes ''aa'')), (''b.png'', File (Bytes ''bb''))])) 1
          (collect_selected_images (foldl (\<lambda>s (n, b, c). image_cell n b c s)
          (current_selections (reset_selections_for_product ''p''
             [(''a.png'', File (Bytes ''aa'')), (''b.png'', File (Bytes ''bb''))]
             \<lparr>product_folders = [(''p'', Dir [(''a.png'', File (Bytes ''aa'')), (''b.png'', File (Bytes ''bb''))])], current_index = 0, username = ''me'',
            current_selections = [], last_loaded_product = None\<rparr>))
          [(''b.png'', True, ''red''), (''a.png'', True, ''blue'')])) Map.empty []"
  have d: "distinct (map name ?imgs)"
    by simp
  have l: "last_loaded_product ?st \<noteq> Some ''p''"
    by simp
  have e: "\<forall>ev\<in>set [(''b.png'', True, ''red''), (''a.png'', True, ''blue'')]. fst ev \<in> name ` set ?imgs"
    by simp
  note t = collect_selected_images_listing_order[OF d l e refl]
  have f: "filter (\<lambda>n. case map_of ?sels n of None \<Rightarrow> False | Some e \<Rightarrow> selected e)
             (map name ?imgs) = [''a.png'', ''b.png'']"
    by code_simp
  from t have order: "map original_file (collect_selected_images ?sels) = [''a.png'', ''b.png'']"
    unfolding f by blast
  have c: "fst ?ci = Inr ?ms"
    by code_simp
  then have C: "?ci = (Inr ?ms, snd ?ci)"
    by (simp add: prod_eq_iff)
  from t C have "map meta_original_file ?ms = [''a.png'', ''b.png'']"
    unfolding f by blast
  with d order c show ?thesis
    by (simp only: simp_thms)
qed

end
